theory Spec2Isabelle
  imports Main "HOL-Library.Word"
begin

unbundle bit_operations_syntax

section \<open>Python strings and bytes\<close>

text \<open>
  The program is \<^verbatim>\<open>src/3c/ej3c2.py\<close>: a Flask application whose protected route is
  guarded by the decorator \<^verbatim>\<open>jwt_required\<close>, with tokens made by
  \<^verbatim>\<open>generate_jwt_token\<close>. Both delegate to the PyJWT library
  (\<^verbatim>\<open>jwt.encode\<close>, \<^verbatim>\<open>jwt.decode\<close>), which in turn uses the
  standard modules \<^verbatim>\<open>base64\<close>, \<^verbatim>\<open>json\<close> and \<^verbatim>\<open>hmac\<close>. The library layers are
  embedded below after their behaviour in PyJWT 2.10 on CPython 3.11, the application
  layer after the source file.

  A Python \<^verbatim>\<open>str\<close> is modelled as a HOL string whose characters are the code points
  0 to 255 (the range of a WSGI header value, which is decoded as Latin-1); a Python
  \<^verbatim>\<open>bytes\<close> value is a HOL string whose characters are the bytes.
\<close>

type_synonym bytes = string

definition py_isspace :: "char \<Rightarrow> bool" where
  \<comment> \<open>\<^verbatim>\<open>str.isspace\<close> on one code point below 256\<close>
  "py_isspace c =
     (let n = (of_char c :: nat)
      in (9 \<le> n \<and> n \<le> 13) \<or> (28 \<le> n \<and> n \<le> 32) \<or> n = 133 \<or> n = 160)"

fun split_acc :: "string \<Rightarrow> string \<Rightarrow> string list" where
  "split_acc w [] = (if w = [] then [] else [w])"
| "split_acc w (c # cs) =
     (if py_isspace c then (if w = [] then split_acc [] cs else w # split_acc [] cs)
      else split_acc (w @ [c]) cs)"

definition py_split :: "string \<Rightarrow> string list" where
  \<comment> \<open>\<^verbatim>\<open>s.split()\<close>: the maximal runs of non-whitespace characters\<close>
  "py_split s = split_acc [] s"

definition py_lower_char :: "char \<Rightarrow> char" where
  "py_lower_char c =
     (let n = (of_char c :: nat)
      in if (65 \<le> n \<and> n \<le> 90) \<or> (192 \<le> n \<and> n \<le> 222 \<and> n \<noteq> 215)
         then char_of (n + 32) else c)"

definition py_lower :: "string \<Rightarrow> string" where
  \<comment> \<open>\<^verbatim>\<open>s.lower()\<close>\<close>
  "py_lower s = map py_lower_char s"

definition utf8_char :: "char \<Rightarrow> bytes" where
  "utf8_char c =
     (let n = (of_char c :: nat)
      in if n < 128 then [c] else [char_of (192 + n div 64), char_of (128 + n mod 64)])"

definition utf8_encode :: "string \<Rightarrow> bytes" where
  \<comment> \<open>\<^verbatim>\<open>s.encode("utf-8")\<close>\<close>
  "utf8_encode s = concat (map utf8_char s)"

fun split_first :: "char \<Rightarrow> string \<Rightarrow> (string \<times> string) option" where
  \<comment> \<open>\<^verbatim>\<open>a, b = s.split(sep, 1)\<close>; \<open>None\<close> is the ValueError of the unpacking when
      \<open>sep\<close> does not occur\<close>
  "split_first sep [] = None"
| "split_first sep (c # cs) =
     (if c = sep then Some ([], cs)
      else (case split_first sep cs of None \<Rightarrow> None | Some (a, b) \<Rightarrow> Some (c # a, b)))"

definition rsplit_last :: "char \<Rightarrow> string \<Rightarrow> (string \<times> string) option" where
  \<comment> \<open>\<^verbatim>\<open>a, b = s.rsplit(sep, 1)\<close>\<close>
  "rsplit_last sep s =
     (case split_first sep (rev s) of None \<Rightarrow> None | Some (b, a) \<Rightarrow> Some (rev a, rev b))"

section \<open>Base64 (modules base64 and binascii, and jwt.utils)\<close>

definition b64_chr :: "nat \<Rightarrow> char" where
  \<comment> \<open>the URL-safe alphabet: A-Z, a-z, 0-9, minus, underscore\<close>
  "b64_chr i =
     (if i < 26 then char_of (65 + i)
      else if i < 52 then char_of (71 + i)
      else if i < 62 then char_of (i - 4)
      else if i = 62 then CHR ''-'' else CHR ''_'')"

definition b64_val :: "char \<Rightarrow> nat option" where
  \<comment> \<open>the decoding table after \<^verbatim>\<open>urlsafe_b64decode\<close> has translated minus and
      underscore to plus and slash: both spellings are accepted\<close>
  "b64_val c =
     (let n = (of_char c :: nat)
      in if 65 \<le> n \<and> n \<le> 90 then Some (n - 65)
         else if 97 \<le> n \<and> n \<le> 122 then Some (n - 71)
         else if 48 \<le> n \<and> n \<le> 57 then Some (n + 4)
         else if c = CHR ''+'' \<or> c = CHR ''-'' then Some 62
         else if c = CHR ''/'' \<or> c = CHR ''_'' then Some 63
         else None)"

fun urlsafe_b64encode :: "bytes \<Rightarrow> string" where
  "urlsafe_b64encode [] = []"
| "urlsafe_b64encode [a] =
     (let x = (of_char a :: nat)
      in [b64_chr (x div 4), b64_chr ((x mod 4) * 16), CHR ''='', CHR ''=''])"
| "urlsafe_b64encode [a, b] =
     (let x = (of_char a :: nat); y = (of_char b :: nat)
      in [b64_chr (x div 4), b64_chr ((x mod 4) * 16 + y div 16),
          b64_chr ((y mod 16) * 4), CHR ''=''])"
| "urlsafe_b64encode (a # b # c # r) =
     (let x = (of_char a :: nat); y = (of_char b :: nat); z = (of_char c :: nat)
      in [b64_chr (x div 4), b64_chr ((x mod 4) * 16 + y div 16),
          b64_chr ((y mod 16) * 4 + z div 64), b64_chr (z mod 64)] @ urlsafe_b64encode r)"

definition base64url_encode :: "bytes \<Rightarrow> string" where
  \<comment> \<open>\<^verbatim>\<open>jwt.utils.base64url_encode\<close>: the padding is removed\<close>
  "base64url_encode x = filter (\<lambda>c. c \<noteq> CHR ''='') (urlsafe_b64encode x)"

fun a2b_base64 :: "nat \<Rightarrow> nat \<Rightarrow> nat \<Rightarrow> string \<Rightarrow> bytes option" where
  \<comment> \<open>\<^verbatim>\<open>binascii.a2b_base64\<close> in its default, non-strict mode, as a loop over the
      input with the state \<open>quad_pos\<close>, \<open>leftchar\<close>, \<open>pads\<close>. Characters outside
      the alphabet are skipped; enough padding ends the parse; \<open>None\<close> is
      \<^verbatim>\<open>binascii.Error\<close>.\<close>
  "a2b_base64 q l p [] = (if q = 0 then Some [] else None)"
| "a2b_base64 q l p (c # cs) =
     (if c = CHR ''='' then
        (if q \<ge> 2 \<and> q + (p + 1) \<ge> 4 then Some []
         else a2b_base64 q l (if q \<ge> 2 then p + 1 else p) cs)
      else
        (case b64_val c of
           None \<Rightarrow> a2b_base64 q l p cs
         | Some v \<Rightarrow>
             (if q = 0 then a2b_base64 1 v 0 cs
              else if q = 1 then
                map_option ((#) (char_of (l * 4 + v div 16))) (a2b_base64 2 (v mod 16) 0 cs)
              else if q = 2 then
                map_option ((#) (char_of (l * 16 + v div 4))) (a2b_base64 3 (v mod 4) 0 cs)
              else
                map_option ((#) (char_of (l * 64 + v))) (a2b_base64 0 0 0 cs))))"

definition base64url_decode :: "string \<Rightarrow> bytes option" where
  \<comment> \<open>\<^verbatim>\<open>jwt.utils.base64url_decode\<close>: pad to a multiple of four, then decode\<close>
  "base64url_decode s =
     (let rem = length s mod 4
      in a2b_base64 0 0 0 (if rem > 0 then s @ replicate (4 - rem) (CHR ''='') else s))"

section \<open>HMAC-SHA256 (modules hashlib and hmac)\<close>

type_synonym w32 = "32 word"

fun root_bits :: "nat \<Rightarrow> nat \<Rightarrow> nat \<Rightarrow> nat \<Rightarrow> nat" where
  \<comment> \<open>the integer \<open>k\<close>-th root of \<open>n\<close>, found bit by bit from bit \<open>b\<close> downwards\<close>
  "root_bits k n 0 r = r"
| "root_bits k n (Suc b) r =
     root_bits k n b (if (r + 2 ^ b) ^ k \<le> n then r + 2 ^ b else r)"

definition primes_below :: "nat \<Rightarrow> nat list" where
  "primes_below m = filter (\<lambda>n. list_all (\<lambda>d. n mod d \<noteq> 0) [2..<n]) [2..<m]"

definition K256 :: "w32 list" where
  \<comment> \<open>the round constants: the first 32 bits of the fractional parts of the cube roots
      of the first 64 primes\<close>
  "K256 = map (\<lambda>p. word_of_nat (root_bits 3 (p * 2 ^ 96) 36 0)) (primes_below 312)"

definition H256 :: "w32 list" where
  \<comment> \<open>the initial hash value: the same of the square roots of the first 8 primes\<close>
  "H256 = map (\<lambda>p. word_of_nat (root_bits 2 (p * 2 ^ 64) 36 0)) (primes_below 20)"

definition rotr32 :: "nat \<Rightarrow> w32 \<Rightarrow> w32" where
  "rotr32 n x = drop_bit n x OR push_bit (32 - n) x"

fun be_bytes :: "nat \<Rightarrow> nat \<Rightarrow> bytes" where
  \<comment> \<open>the low \<open>k\<close> bytes of a number, most significant first\<close>
  "be_bytes 0 x = []"
| "be_bytes (Suc k) x = be_bytes k (x div 256) @ [char_of x]"

definition be_word :: "bytes \<Rightarrow> w32" where
  "be_word bs = word_of_nat (foldl (\<lambda>a c. a * 256 + of_char c) 0 bs)"

fun words_of :: "bytes \<Rightarrow> w32 list" where
  "words_of (a # b # c # d # r) = be_word [a, b, c, d] # words_of r"
| "words_of r = []"

definition sha_pad :: "bytes \<Rightarrow> bytes" where
  \<comment> \<open>a one bit, zeros up to 56 modulo 64, then the bit length on eight bytes\<close>
  "sha_pad m =
     (let n = length m
      in m @ [char_of (128 :: nat)] @ replicate ((119 - n mod 64) mod 64) (char_of (0 :: nat))
           @ be_bytes 8 (8 * n))"

fun blocks16 :: "w32 list \<Rightarrow> w32 list list" where
  "blocks16 ws = (if length ws < 16 then [] else take 16 ws # blocks16 (drop 16 ws))"

declare blocks16.simps [simp del]

definition ssig0 :: "w32 \<Rightarrow> w32" where
  "ssig0 x = rotr32 7 x XOR rotr32 18 x XOR drop_bit 3 x"

definition ssig1 :: "w32 \<Rightarrow> w32" where
  "ssig1 x = rotr32 17 x XOR rotr32 19 x XOR drop_bit 10 x"

definition bsig0 :: "w32 \<Rightarrow> w32" where
  "bsig0 x = rotr32 2 x XOR rotr32 13 x XOR rotr32 22 x"

definition bsig1 :: "w32 \<Rightarrow> w32" where
  "bsig1 x = rotr32 6 x XOR rotr32 11 x XOR rotr32 25 x"

fun extend_w :: "nat \<Rightarrow> w32 list \<Rightarrow> w32 list" where
  \<comment> \<open>the message schedule: each new word from the words 2, 7, 15 and 16 back\<close>
  "extend_w 0 ws = ws"
| "extend_w (Suc n) ws =
     (let l = length ws
      in extend_w n (ws @ [ssig1 (ws ! (l - 2)) + ws ! (l - 7) + ssig0 (ws ! (l - 15))
                           + ws ! (l - 16)]))"

fun sha_round :: "w32 list \<Rightarrow> w32 \<times> w32 \<Rightarrow> w32 list" where
  "sha_round [a, b, c, d, e, f, g, h] (k, w) =
     (let t1 = h + bsig1 e + ((e AND f) XOR (NOT e AND g)) + k + w;
          t2 = bsig0 a + ((a AND b) XOR (a AND c) XOR (b AND c))
      in [t1 + t2, a, b, c, d + t1, e, f, g])"
| "sha_round s kw = s"

definition sha_compress :: "w32 list \<Rightarrow> w32 list \<Rightarrow> w32 list" where
  "sha_compress hs blk = map2 (+) hs (foldl sha_round hs (zip K256 (extend_w 48 blk)))"

definition sha256 :: "bytes \<Rightarrow> bytes" where
  "sha256 m =
     concat (map (\<lambda>w. be_bytes 4 (unat w))
               (foldl sha_compress H256 (blocks16 (words_of (sha_pad m)))))"

definition hmac_sha256 :: "bytes \<Rightarrow> bytes \<Rightarrow> bytes" where
  \<comment> \<open>\<^verbatim>\<open>hmac.new(key, msg, hashlib.sha256).digest()\<close>\<close>
  "hmac_sha256 key msg =
     (let k0 = (if length key > 64 then sha256 key else key);
          k = k0 @ replicate (64 - length k0) (char_of (0 :: nat));
          pad = (\<lambda>p. map (\<lambda>c. char_of ((of_char c :: nat) XOR p)) k)
      in sha256 (pad 92 @ sha256 (pad 54 @ msg)))"

section \<open>JSON (module json)\<close>

text \<open>
  JSON values as Python's \<^verbatim>\<open>json\<close> module produces them. A dictionary keeps its keys
  in insertion order. Floating-point numbers are outside the model: a JSON number with a
  fraction or an exponent, and the literals NaN and Infinity, are answered like a syntax
  error. So are code points above 255 and documents not encoded in UTF-8.
\<close>

datatype json = JNull | JBool bool | JInt int | JStr string | JArr "json list"
  | JObj "(string \<times> json) list"

type_synonym dict = "(string \<times> json) list"

fun dict_set :: "string \<Rightarrow> json \<Rightarrow> dict \<Rightarrow> dict" where
  \<comment> \<open>\<^verbatim>\<open>d[k] = v\<close>: an existing key keeps its place\<close>
  "dict_set k v [] = [(k, v)]"
| "dict_set k v ((k', v') # d) =
     (if k' = k then (k, v) # d else (k', v') # dict_set k v d)"

definition dict_get :: "dict \<Rightarrow> string \<Rightarrow> json option" where
  \<comment> \<open>\<^verbatim>\<open>d.get(k)\<close>\<close>
  "dict_get d k = map_of d k"

definition py_truthy :: "json \<Rightarrow> bool" where
  \<comment> \<open>the truth value Python gives a decoded JSON value\<close>
  "py_truthy v =
     (case v of JNull \<Rightarrow> False | JBool b \<Rightarrow> b | JInt i \<Rightarrow> i \<noteq> 0 | JStr s \<Rightarrow> s \<noteq> []
      | JArr xs \<Rightarrow> xs \<noteq> [] | JObj d \<Rightarrow> d \<noteq> [])"

subsection \<open>Serialising: json.dumps with compact separators\<close>

definition hexdig :: "nat \<Rightarrow> char" where
  "hexdig d = (if d < 10 then char_of (48 + d) else char_of (87 + d))"

definition escape_char :: "char \<Rightarrow> string" where
  \<comment> \<open>\<^verbatim>\<open>ensure_ascii\<close>: quote, backslash and everything outside space..tilde\<close>
  "escape_char c =
     (let n = (of_char c :: nat)
      in if c = CHR ''\"'' then [CHR 0x5C, CHR ''\"'']
         else if c = CHR 0x5C then [CHR 0x5C, CHR 0x5C]
         else if n = 8 then [CHR 0x5C, CHR ''b'']
         else if n = 12 then [CHR 0x5C, CHR ''f'']
         else if n = 10 then [CHR 0x5C, CHR ''n'']
         else if n = 13 then [CHR 0x5C, CHR ''r'']
         else if n = 9 then [CHR 0x5C, CHR ''t'']
         else if n < 32 \<or> n > 126
           then [CHR 0x5C, CHR ''u'', CHR ''0'', CHR ''0'', hexdig (n div 16), hexdig (n mod 16)]
         else [c])"

definition encode_basestring_ascii :: "string \<Rightarrow> string" where
  "encode_basestring_ascii s = CHR ''\"'' # concat (map escape_char s) @ [CHR ''\"'']"

fun dec_nat :: "nat \<Rightarrow> string" where
  "dec_nat n =
     (if n < 10 then [char_of (48 + n)] else dec_nat (n div 10) @ [char_of (48 + n mod 10)])"

declare dec_nat.simps [simp del]

definition dec_int :: "int \<Rightarrow> string" where
  "dec_int i = (if i < 0 then CHR ''-'' # dec_nat (nat (- i)) else dec_nat (nat i))"

fun join_comma :: "string list \<Rightarrow> string" where
  "join_comma [] = []"
| "join_comma [x] = x"
| "join_comma (x # y # ys) = x @ CHR '','' # join_comma (y # ys)"

fun json_dumps :: "json \<Rightarrow> string" where
  "json_dumps JNull = ''null''"
| "json_dumps (JBool b) = (if b then ''true'' else ''false'')"
| "json_dumps (JInt i) = dec_int i"
| "json_dumps (JStr s) = encode_basestring_ascii s"
| "json_dumps (JArr xs) = CHR ''['' # join_comma (map json_dumps xs) @ '']''"
| "json_dumps (JObj d) =
     CHR ''{'' # join_comma (map (\<lambda>kv. encode_basestring_ascii (fst kv) @ CHR '':'' # json_dumps (snd kv)) d)
       @ ''}''"

subsection \<open>Parsing: json.loads\<close>

fun utf8_decode :: "bytes \<Rightarrow> string option" where
  \<comment> \<open>\<^verbatim>\<open>b.decode("utf-8")\<close> for code points below 256; \<open>None\<close> is
      UnicodeDecodeError (a ValueError), or a code point outside the model\<close>
  "utf8_decode [] = Some []"
| "utf8_decode (c # cs) =
     (let n = (of_char c :: nat)
      in if n < 128 then map_option ((#) c) (utf8_decode cs)
         else if n = 194 \<or> n = 195 then
           (case cs of
              [] \<Rightarrow> None
            | d # r \<Rightarrow>
                (let m = (of_char d :: nat)
                 in if 128 \<le> m \<and> m \<le> 191
                    then map_option ((#) (char_of ((n - 192) * 64 + (m - 128)))) (utf8_decode r)
                    else None))
         else None)"

definition strip_bom :: "bytes \<Rightarrow> bytes" where
  "strip_bom b = (if take 3 b = [CHR 0xEF, CHR 0xBB, CHR 0xBF] then drop 3 b else b)"

datatype token = TLBrace | TRBrace | TLBrack | TRBrack | TColon | TComma | TVal json

datatype lex_state = Idle | InStr string | InEsc string | InHex string nat nat
  | NumSign | NumZero | NumDigits bool nat | InLit string json

definition json_ws :: "char \<Rightarrow> bool" where
  "json_ws c = (c = CHR '' '' \<or> c = CHR 0x09 \<or> c = CHR 0x0A \<or> c = CHR 0x0D)"

definition is_digit :: "char \<Rightarrow> bool" where
  "is_digit c = (48 \<le> (of_char c :: nat) \<and> (of_char c :: nat) \<le> 57)"

definition digit_val :: "char \<Rightarrow> nat" where
  "digit_val c = of_char c - 48"

definition hex_val :: "char \<Rightarrow> nat option" where
  "hex_val c =
     (let n = (of_char c :: nat)
      in if 48 \<le> n \<and> n \<le> 57 then Some (n - 48)
         else if 65 \<le> n \<and> n \<le> 70 then Some (n - 55)
         else if 97 \<le> n \<and> n \<le> 102 then Some (n - 87)
         else None)"

definition unescape :: "char \<Rightarrow> char option" where
  "unescape e =
     (if e = CHR ''\"'' then Some (CHR ''\"'')
      else if e = CHR 0x5C then Some (CHR 0x5C)
      else if e = CHR ''/'' then Some (CHR ''/'')
      else if e = CHR ''b'' then Some (CHR 0x08)
      else if e = CHR ''f'' then Some (CHR 0x0C)
      else if e = CHR ''n'' then Some (CHR 0x0A)
      else if e = CHR ''r'' then Some (CHR 0x0D)
      else if e = CHR ''t'' then Some (CHR 0x09)
      else None)"

definition after_number :: "char \<Rightarrow> token list option" where
  \<comment> \<open>what may follow a number: whitespace, a comma or a closing bracket; a fraction or
      an exponent would make it a float\<close>
  "after_number c =
     (if json_ws c then Some []
      else if c = CHR '','' then Some [TComma]
      else if c = CHR '']'' then Some [TRBrack]
      else if c = CHR ''}'' then Some [TRBrace]
      else None)"

definition signed :: "bool \<Rightarrow> nat \<Rightarrow> json" where
  "signed neg v = JInt (if neg then - int v else int v)"

fun lexer :: "lex_state \<Rightarrow> string \<Rightarrow> token list option" where
  "lexer Idle [] = Some []"
| "lexer (NumZero) [] = Some [TVal (JInt 0)]"
| "lexer (NumDigits neg v) [] = Some [TVal (signed neg v)]"
| "lexer st [] = None"
| "lexer Idle (c # cs) =
     (if json_ws c then lexer Idle cs
      else if c = CHR ''{'' then map_option ((#) TLBrace) (lexer Idle cs)
      else if c = CHR ''}'' then map_option ((#) TRBrace) (lexer Idle cs)
      else if c = CHR ''['' then map_option ((#) TLBrack) (lexer Idle cs)
      else if c = CHR '']'' then map_option ((#) TRBrack) (lexer Idle cs)
      else if c = CHR '':'' then map_option ((#) TColon) (lexer Idle cs)
      else if c = CHR '','' then map_option ((#) TComma) (lexer Idle cs)
      else if c = CHR ''\"'' then lexer (InStr []) cs
      else if c = CHR ''-'' then lexer NumSign cs
      else if c = CHR ''0'' then lexer NumZero cs
      else if is_digit c then lexer (NumDigits False (digit_val c)) cs
      else if c = CHR ''t'' then lexer (InLit ''rue'' (JBool True)) cs
      else if c = CHR ''f'' then lexer (InLit ''alse'' (JBool False)) cs
      else if c = CHR ''n'' then lexer (InLit ''ull'' JNull) cs
      else None)"
| "lexer (InStr acc) (c # cs) =
     (if c = CHR ''\"'' then map_option ((#) (TVal (JStr acc))) (lexer Idle cs)
      else if c = CHR 0x5C then lexer (InEsc acc) cs
      else if (of_char c :: nat) < 32 then None
      else lexer (InStr (acc @ [c])) cs)"
| "lexer (InEsc acc) (c # cs) =
     (if c = CHR ''u'' then lexer (InHex acc 0 0) cs
      else (case unescape c of None \<Rightarrow> None | Some x \<Rightarrow> lexer (InStr (acc @ [x])) cs))"
| "lexer (InHex acc k v) (c # cs) =
     (case hex_val c of
        None \<Rightarrow> None
      | Some h \<Rightarrow>
          (if k < 3 then lexer (InHex acc (k + 1) (v * 16 + h)) cs
           else if v * 16 + h < 256 then lexer (InStr (acc @ [char_of (v * 16 + h)])) cs
           else None))"
| "lexer NumSign (c # cs) =
     (if c = CHR ''0'' then
        (case cs of
           [] \<Rightarrow> Some [TVal (JInt 0)]
         | d # r \<Rightarrow>
             (case after_number d of
                None \<Rightarrow> None
              | Some ts \<Rightarrow> map_option (\<lambda>rest. TVal (JInt 0) # ts @ rest) (lexer Idle r)))
      else if is_digit c then lexer (NumDigits True (digit_val c)) cs
      else None)"
| "lexer NumZero (c # cs) =
     (case after_number c of
        None \<Rightarrow> None
      | Some ts \<Rightarrow> map_option (\<lambda>rest. TVal (JInt 0) # ts @ rest) (lexer Idle cs))"
| "lexer (NumDigits neg v) (c # cs) =
     (if is_digit c then lexer (NumDigits neg (v * 10 + digit_val c)) cs
      else (case after_number c of
              None \<Rightarrow> None
            | Some ts \<Rightarrow> map_option (\<lambda>rest. TVal (signed neg v) # ts @ rest) (lexer Idle cs)))"
| "lexer (InLit [] v) (c # cs) = None"
| "lexer (InLit [x] v) (c # cs) =
     (if c = x then map_option ((#) (TVal v)) (lexer Idle cs) else None)"
| "lexer (InLit (x # y # ys) v) (c # cs) =
     (if c = x then lexer (InLit (y # ys) v) cs else None)"

datatype frame = FArr "json list" | FObj dict "string option"

datatype pmode = WValue | WValueOrClose | WKey | WKeyOrClose | WColon | WSep | Done json

fun put :: "json \<Rightarrow> frame list \<Rightarrow> (pmode \<times> frame list) option" where
  \<comment> \<open>a finished value goes into the container being built, or is the document\<close>
  "put v [] = Some (Done v, [])"
| "put v (FArr xs # st) = Some (WSep, FArr (xs @ [v]) # st)"
| "put v (FObj d (Some k) # st) = Some (WSep, FObj (dict_set k v d) None # st)"
| "put v (FObj d None # st) = None"

fun close_arr :: "frame list \<Rightarrow> (pmode \<times> frame list) option" where
  "close_arr (FArr xs # st) = put (JArr xs) st"
| "close_arr st = None"

fun close_obj :: "frame list \<Rightarrow> (pmode \<times> frame list) option" where
  "close_obj (FObj d None # st) = put (JObj d) st"
| "close_obj st = None"

fun open_value :: "frame list \<Rightarrow> token \<Rightarrow> (pmode \<times> frame list) option" where
  "open_value st (TVal v) = put v st"
| "open_value st TLBrace = Some (WKeyOrClose, FObj [] None # st)"
| "open_value st TLBrack = Some (WValueOrClose, FArr [] # st)"
| "open_value st t = None"

fun take_key :: "frame list \<Rightarrow> token \<Rightarrow> (pmode \<times> frame list) option" where
  "take_key (FObj d None # st) (TVal (JStr k)) = Some (WColon, FObj d (Some k) # st)"
| "take_key st t = None"

fun step :: "pmode \<Rightarrow> frame list \<Rightarrow> token \<Rightarrow> (pmode \<times> frame list) option" where
  "step WValue st t = open_value st t"
| "step WValueOrClose st t = (if t = TRBrack then close_arr st else open_value st t)"
| "step WKey st t = take_key st t"
| "step WKeyOrClose st t = (if t = TRBrace then close_obj st else take_key st t)"
| "step WColon st t = (if t = TColon then Some (WValue, st) else None)"
| "step WSep st t =
     (if t = TComma then
        (case st of
           FArr xs # r \<Rightarrow> Some (WValue, st)
         | FObj d None # r \<Rightarrow> Some (WKey, st)
         | _ \<Rightarrow> None)
      else if t = TRBrack then close_arr st
      else if t = TRBrace then close_obj st
      else None)"
| "step (Done v) st t = None"

fun parse :: "pmode \<Rightarrow> frame list \<Rightarrow> token list \<Rightarrow> json option" where
  "parse m st [] = (case m of Done v \<Rightarrow> Some v | _ \<Rightarrow> None)"
| "parse m st (t # ts) =
     (case step m st t of None \<Rightarrow> None | Some (m', st') \<Rightarrow> parse m' st' ts)"

definition json_loads :: "bytes \<Rightarrow> json option" where
  \<comment> \<open>\<^verbatim>\<open>json.loads(b)\<close>; \<open>None\<close> is the ValueError it raises\<close>
  "json_loads b =
     (case utf8_decode (strip_bom b) of
        None \<Rightarrow> None
      | Some s \<Rightarrow> (case lexer Idle s of None \<Rightarrow> None | Some ts \<Rightarrow> parse WValue [] ts))"

section \<open>PyJWT (jwt.api_jws, jwt.api_jwt, jwt.algorithms)\<close>

text \<open>
  Exceptions are values. All of them except \<open>TypeError\<close>, \<open>ValueError\<close> and
  \<open>AttributeError\<close> are subclasses of \<^verbatim>\<open>jwt.InvalidTokenError\<close>.
  The time of a clock reading is an integer number of microseconds since the epoch, the
  resolution of \<^verbatim>\<open>datetime\<close>; the conversion to float seconds that
  \<^verbatim>\<open>timestamp()\<close> makes is taken as exact.
\<close>

datatype exn = DecodeError | InvalidSignatureError | ExpiredSignatureError
  | InvalidAudienceError | InvalidIssuedAtError | ImmatureSignatureError
  | InvalidAlgorithmError | InvalidSubjectError | InvalidJTIError
  | TypeError | ValueError | AttributeError

definition is_InvalidTokenError :: "exn \<Rightarrow> bool" where
  "is_InvalidTokenError e = (e \<noteq> TypeError \<and> e \<noteq> ValueError \<and> e \<noteq> AttributeError)"

definition jwt_header :: dict where
  \<comment> \<open>the header of every token made, in the order \<^verbatim>\<open>sort_keys=True\<close> gives\<close>
  "jwt_header = [(''alg'', JStr ''HS256''), (''typ'', JStr ''JWT'')]"

definition jws_encode :: "bytes \<Rightarrow> string \<Rightarrow> string" where
  \<comment> \<open>\<^verbatim>\<open>PyJWS.encode(payload, key, algorithm="HS256")\<close>\<close>
  "jws_encode payload key =
     (let json_header = utf8_encode (json_dumps (JObj jwt_header));
          signing_input = base64url_encode json_header @ CHR ''.'' # base64url_encode payload;
          signature = hmac_sha256 (utf8_encode key) signing_input
      in signing_input @ CHR ''.'' # base64url_encode signature)"

definition is_str :: "json \<Rightarrow> bool" where
  "is_str v = (case v of JStr s \<Rightarrow> True | _ \<Rightarrow> False)"


definition jws_load :: "string \<Rightarrow> exn + (bytes \<times> bytes \<times> dict \<times> bytes)" where
  \<comment> \<open>\<^verbatim>\<open>PyJWS._load\<close>: payload, signing input, header, signature\<close>
  "jws_load jwt =
     (case rsplit_last (CHR ''.'') (utf8_encode jwt) of
        None \<Rightarrow> Inl DecodeError
      | Some (signing_input, crypto_segment) \<Rightarrow>
     (case split_first (CHR ''.'') signing_input of
        None \<Rightarrow> Inl DecodeError
      | Some (header_segment, payload_segment) \<Rightarrow>
     (case base64url_decode header_segment of
        None \<Rightarrow> Inl DecodeError
      | Some header_data \<Rightarrow>
     (case json_loads header_data of
        Some (JObj header) \<Rightarrow>
          (case base64url_decode payload_segment of
             None \<Rightarrow> Inl DecodeError
           | Some payload \<Rightarrow>
          (case base64url_decode crypto_segment of
             None \<Rightarrow> Inl DecodeError
           | Some signature \<Rightarrow> Inr (payload, signing_input, header, signature)))
      | _ \<Rightarrow> Inl DecodeError))))"

definition verify_signature :: "bytes \<Rightarrow> dict \<Rightarrow> bytes \<Rightarrow> string \<Rightarrow> exn + unit" where
  \<comment> \<open>\<^verbatim>\<open>PyJWS._verify_signature\<close> with \<^verbatim>\<open>algorithms=["HS256"]\<close>\<close>
  "verify_signature signing_input header signature key =
     (case dict_get header ''alg'' of
        None \<Rightarrow> Inl InvalidAlgorithmError
      | Some alg \<Rightarrow>
          (if \<not> py_truthy alg \<or> alg \<noteq> JStr ''HS256'' then Inl InvalidAlgorithmError
           else if signature = hmac_sha256 (utf8_encode key) signing_input then Inr ()
           else Inl InvalidSignatureError))"

definition jws_decode :: "string \<Rightarrow> string \<Rightarrow> exn + bytes" where
  \<comment> \<open>\<^verbatim>\<open>PyJWS.decode_complete\<close>, giving the payload bytes\<close>
  "jws_decode jwt key =
     (case jws_load jwt of
        Inl e \<Rightarrow> Inl e
      | Inr (payload, signing_input, header, signature) \<Rightarrow>
          (if dict_get header ''b64'' = Some (JBool False) then Inl DecodeError
           else (case verify_signature signing_input header signature key of
                   Inl e \<Rightarrow> Inl e
                 | Inr u \<Rightarrow> Inr payload)))"

definition int_space :: "string \<Rightarrow> char \<Rightarrow> bool" where
  \<comment> \<open>the blanks \<^verbatim>\<open>int(s)\<close> strips: the ASCII ones in an ASCII string, the Unicode
      ones otherwise\<close>
  "int_space s c =
     (if list_all (\<lambda>x. (of_char x :: nat) < 128) s
      then (9 \<le> (of_char c :: nat) \<and> (of_char c :: nat) \<le> 13) \<or> c = CHR '' ''
      else py_isspace c)"

fun int_digits :: "nat \<Rightarrow> string \<Rightarrow> nat option" where
  \<comment> \<open>digits after the first, single underscores allowed between them\<close>
  "int_digits v [] = Some v"
| "int_digits v [c] = (if is_digit c then Some (v * 10 + digit_val c) else None)"
| "int_digits v (c # d # r) =
     (if is_digit c then int_digits (v * 10 + digit_val c) (d # r)
      else if c = CHR ''_'' \<and> is_digit d then int_digits v (d # r)
      else None)"

definition int_of_str :: "string \<Rightarrow> int option" where
  \<comment> \<open>\<^verbatim>\<open>int(s)\<close> for a string; \<open>None\<close> is ValueError\<close>
  "int_of_str s =
     (let t = rev (dropWhile (int_space s) (rev (dropWhile (int_space s) s)));
          neg = (take 1 t = ''-'');
          u = (if take 1 t = ''-'' \<or> take 1 t = ''+'' then drop 1 t else t)
      in case u of
           [] \<Rightarrow> None
         | c # r \<Rightarrow>
             (if is_digit c
              then map_option (\<lambda>v. if neg then - int v else int v) (int_digits (digit_val c) r)
              else None))"

definition py_int :: "json \<Rightarrow> exn + int" where
  \<comment> \<open>\<^verbatim>\<open>int(v)\<close> for a decoded JSON value\<close>
  "py_int v =
     (case v of
        JInt i \<Rightarrow> Inr i
      | JBool b \<Rightarrow> Inr (if b then 1 else 0)
      | JStr s \<Rightarrow> (case int_of_str s of None \<Rightarrow> Inl ValueError | Some i \<Rightarrow> Inr i)
      | _ \<Rightarrow> Inl TypeError)"

definition validate_iat :: "dict \<Rightarrow> int \<Rightarrow> exn + unit" where
  "validate_iat payload now =
     (case dict_get payload ''iat'' of
        None \<Rightarrow> Inr ()
      | Some v \<Rightarrow>
          (case py_int v of
             Inl e \<Rightarrow> Inl (if e = ValueError then InvalidIssuedAtError else e)
           | Inr iat \<Rightarrow> if iat * 1000000 > now then Inl ImmatureSignatureError else Inr ()))"

definition validate_nbf :: "dict \<Rightarrow> int \<Rightarrow> exn + unit" where
  "validate_nbf payload now =
     (case dict_get payload ''nbf'' of
        None \<Rightarrow> Inr ()
      | Some v \<Rightarrow>
          (case py_int v of
             Inl e \<Rightarrow> Inl (if e = ValueError then DecodeError else e)
           | Inr nbf \<Rightarrow> if nbf * 1000000 > now then Inl ImmatureSignatureError else Inr ()))"

definition validate_exp :: "dict \<Rightarrow> int \<Rightarrow> exn + unit" where
  "validate_exp payload now =
     (case dict_get payload ''exp'' of
        None \<Rightarrow> Inr ()
      | Some v \<Rightarrow>
          (case py_int v of
             Inl e \<Rightarrow> Inl (if e = ValueError then DecodeError else e)
           | Inr exp \<Rightarrow> if exp * 1000000 \<le> now then Inl ExpiredSignatureError else Inr ()))"

definition validate_aud :: "dict \<Rightarrow> exn + unit" where
  \<comment> \<open>no audience is asked for: a token that names one is refused\<close>
  "validate_aud payload =
     (case dict_get payload ''aud'' of
        None \<Rightarrow> Inr ()
      | Some v \<Rightarrow> if py_truthy v then Inl InvalidAudienceError else Inr ())"

definition validate_sub :: "dict \<Rightarrow> exn + unit" where
  "validate_sub payload =
     (case dict_get payload ''sub'' of
        None \<Rightarrow> Inr ()
      | Some v \<Rightarrow> if is_str v then Inr () else Inl InvalidSubjectError)"

definition validate_jti :: "dict \<Rightarrow> exn + unit" where
  "validate_jti payload =
     (case dict_get payload ''jti'' of
        None \<Rightarrow> Inr ()
      | Some v \<Rightarrow> if is_str v then Inr () else Inl InvalidJTIError)"

definition validate_claims :: "dict \<Rightarrow> bool \<Rightarrow> int \<Rightarrow> exn + unit" where
  \<comment> \<open>\<^verbatim>\<open>PyJWT._validate_claims\<close> with the default options, no claim required, and
      \<open>now\<close> the clock reading it takes; \<open>verify_exp\<close> is the option of that name\<close>
  "validate_claims payload verify_exp now =
     (case validate_iat payload now of Inl e \<Rightarrow> Inl e | Inr u1 \<Rightarrow>
     (case validate_nbf payload now of Inl e \<Rightarrow> Inl e | Inr u2 \<Rightarrow>
     (case (if verify_exp then validate_exp payload now else Inr ()) of Inl e \<Rightarrow> Inl e | Inr u3 \<Rightarrow>
     (case validate_aud payload of Inl e \<Rightarrow> Inl e | Inr u4 \<Rightarrow>
     (case validate_sub payload of Inl e \<Rightarrow> Inl e | Inr u5 \<Rightarrow>
      validate_jti payload)))))"

definition jwt_decode :: "string \<Rightarrow> string \<Rightarrow> bool \<Rightarrow> int \<Rightarrow> exn + dict" where
  \<comment> \<open>\<^verbatim>\<open>jwt.decode(token, key, algorithms=["HS256"])\<close>, the system clock reading
      \<open>now\<close> when the claims are validated\<close>
  "jwt_decode jwt key verify_exp now =
     (case jws_decode jwt key of
        Inl e \<Rightarrow> Inl e
      | Inr payload_bytes \<Rightarrow>
          (case json_loads payload_bytes of
             Some (JObj payload) \<Rightarrow>
               (case validate_claims payload verify_exp now of
                  Inl e \<Rightarrow> Inl e
                | Inr u \<Rightarrow> Inr payload)
           | _ \<Rightarrow> Inl DecodeError))"

section \<open>The application (src/3c/ej3c2.py)\<close>

definition JWT_SECRET_KEY :: string where
  "JWT_SECRET_KEY = ''clave_secreta_jwt_para_firmar_tokens''"





datatype response = Response json nat

datatype result = Returned response | Raised exn

record request =
  authorization :: "string option"
  json_body :: json
  jwt_payload :: "dict option"

definition unauthorized :: "string \<Rightarrow> result" where
  \<comment> \<open>\<^verbatim>\<open>return jsonify({'error': msg}), 401\<close>\<close>
  "unauthorized msg = Returned (Response (JObj [(''error'', JStr msg)]) 401)"

definition token_invalido :: string where
  "token_invalido = ''Token inv'' @ CHR 0xE1 # ''lido ''"

definition token_expirado :: string where
  "token_expirado = ''Token expirado''"

definition token_invalido_o_ausente :: string where
  "token_invalido_o_ausente = ''Token inv'' @ CHR 0xE1 # ''lido o ausente''"


definition decorated_function ::
  "(request \<Rightarrow> 'w \<Rightarrow> result \<times> 'w) \<Rightarrow> int \<Rightarrow> request \<Rightarrow> 'w \<Rightarrow> result \<times> 'w" where
  \<comment> \<open>the wrapper \<^verbatim>\<open>jwt_required(func)\<close> returns. \<open>func\<close> is the protected view: it
      reads the request and may change the state \<open>w\<close> of the server. \<open>now\<close> is the
      reading of the system clock that \<^verbatim>\<open>jwt.decode\<close> takes.\<close>
  "decorated_function func now request w =
     (case authorization request of
        None \<Rightarrow> (unauthorized token_invalido, w)
      | Some auth_header \<Rightarrow>
          (if auth_header = [] then (unauthorized token_invalido, w)
           else
             (case py_split auth_header of
                [scheme, token] \<Rightarrow>
                  (if py_lower scheme \<noteq> ''bearer'' then (unauthorized token_invalido, w)
                   else
                     (case jwt_decode token JWT_SECRET_KEY True now of
                        Inr decoded \<Rightarrow> func (request\<lparr>jwt_payload := Some decoded\<rparr>) w
                      | Inl e \<Rightarrow>
                          (if e = ExpiredSignatureError then (unauthorized token_expirado, w)
                           else if is_InvalidTokenError e
                             then (unauthorized token_invalido_o_ausente, w)
                           else (Raised e, w))))
              | _ \<Rightarrow> (unauthorized token_invalido, w))))"

definition secret_view :: "request \<Rightarrow> 'w \<Rightarrow> result \<times> 'w" where
  \<comment> \<open>the body of \<^verbatim>\<open>protected_secret\<close>\<close>
  "secret_view request w =
     (Returned (Response (JObj
        [(''message'', JStr (CHR 0xA1 # ''Has accedido al secreto con JWT!'')),
         (''secret'', JStr (''La respuesta a la vida, el universo y todo lo dem'' @ CHR 0xE1
                            # ''s es 42''))]) 200), w)"

definition protected_secret :: "int \<Rightarrow> request \<Rightarrow> 'w \<Rightarrow> result \<times> 'w" where
  "protected_secret = decorated_function secret_view"




section \<open>Base64 decoding inverts encoding\<close>

lemma of_char_lt_256: "(of_char c :: nat) < 256"
  by (cases c) (simp add: of_char_def horner_sum_eq_sum)

lemma b64_val_chr: "i < 64 \<Longrightarrow> b64_val (b64_chr i) = Some i"
  by (auto simp: b64_val_def b64_chr_def Let_def)

lemma b64_chr_code:
  "i < 64 \<Longrightarrow> (of_char (b64_chr i) :: nat) \<in> {45} \<union> {48..57} \<union> {65..90} \<union> {95} \<union> {97..122}"
  by (auto simp: b64_chr_def)

lemma b64_chr_not_pad: "i < 64 \<Longrightarrow> b64_chr i \<noteq> CHR ''=''"
  using b64_chr_code [of i] by auto

lemma octets1:
  fixes x y :: nat
  assumes "y < 256"
  shows "x div 4 * 4 + ((x mod 4) * 16 + y div 16) div 16 = x"
proof -
  have "y div 16 < 16" using assms by simp
  then have "((x mod 4) * 16 + y div 16) div 16 = x mod 4" by simp
  then show ?thesis by simp
qed

lemma octets2:
  fixes x y z :: nat
  assumes "y < 256" "z < 256"
  shows "((x mod 4) * 16 + y div 16) mod 16 * 16 + ((y mod 16) * 4 + z div 64) div 4 = y"
proof -
  have "y div 16 < 16" using assms by simp
  then have a: "((x mod 4) * 16 + y div 16) mod 16 = y div 16" by simp
  have "z div 64 < 4" using assms by simp
  then have b: "((y mod 16) * 4 + z div 64) div 4 = y mod 16" by simp
  show ?thesis unfolding a b by simp
qed

lemma octets3:
  fixes y z :: nat
  assumes "z < 256"
  shows "((y mod 16) * 4 + z div 64) mod 4 * 64 + z mod 64 = z"
proof -
  have "z div 64 < 4" using assms by simp
  then have a: "((y mod 16) * 4 + z div 64) mod 4 = z div 64" by simp
  show ?thesis unfolding a by simp
qed

lemma octets4:
  fixes x :: nat
  shows "x div 4 * 4 + ((x mod 4) * 16) div 16 = x"
  by simp

lemma octets5:
  fixes x y :: nat
  assumes "y < 256"
  shows "((x mod 4) * 16 + y div 16) mod 16 * 16 + ((y mod 16) * 4) div 4 = y"
proof -
  have "y div 16 < 16" using assms by simp
  then have a: "((x mod 4) * 16 + y div 16) mod 16 = y div 16" by simp
  show ?thesis unfolding a by simp
qed

lemma sext:
  "(of_char a :: nat) div 4 < 64"
  "(of_char a :: nat) mod 4 * 16 + (of_char b :: nat) div 16 < 64"
  "(of_char b :: nat) mod 16 * 4 + (of_char c :: nat) div 64 < 64"
  "(of_char c :: nat) mod 64 < 64"
  "(of_char a :: nat) mod 4 * 16 < 64"
  "(of_char b :: nat) mod 16 * 4 < 64"
  using of_char_lt_256 [of a] of_char_lt_256 [of b] of_char_lt_256 [of c] by linarith+

lemmas oct = octets1 [OF of_char_lt_256] octets2 [OF of_char_lt_256 of_char_lt_256]
  octets3 [OF of_char_lt_256] octets4 octets5 [OF of_char_lt_256]

lemma enc3: "base64url_encode (a # b # c # r) =
  [b64_chr (of_char a div 4), b64_chr ((of_char a mod 4) * 16 + of_char b div 16),
   b64_chr ((of_char b mod 16) * 4 + of_char c div 64), b64_chr (of_char c mod 64)]
  @ base64url_encode r"
  by (simp add: base64url_encode_def Let_def b64_chr_not_pad sext)

lemma enc2: "base64url_encode [a, b] =
  [b64_chr (of_char a div 4), b64_chr ((of_char a mod 4) * 16 + of_char b div 16),
   b64_chr ((of_char b mod 16) * 4)]"
  by (simp add: base64url_encode_def Let_def b64_chr_not_pad sext)

lemma enc1: "base64url_encode [a] = [b64_chr (of_char a div 4), b64_chr ((of_char a mod 4) * 16)]"
  by (simp add: base64url_encode_def Let_def b64_chr_not_pad sext)

lemma enc0: "base64url_encode [] = []"
  by (simp add: base64url_encode_def)


lemma a2b_quad:
  assumes "i1 < 64" "i2 < 64" "i3 < 64" "i4 < 64"
  shows "a2b_base64 0 l p (b64_chr i1 # b64_chr i2 # b64_chr i3 # b64_chr i4 # cs) =
    map_option (\<lambda>r. char_of (i1 * 4 + i2 div 16) # char_of (i2 mod 16 * 16 + i3 div 4)
       # char_of (i3 mod 4 * 64 + i4) # r) (a2b_base64 0 0 0 cs)"
  using assms by (simp add: b64_chr_not_pad b64_val_chr option.map_comp comp_def)

lemma a2b_triple:
  assumes "i1 < 64" "i2 < 64" "i3 < 64"
  shows "a2b_base64 0 l p [b64_chr i1, b64_chr i2, b64_chr i3, CHR ''=''] =
    Some [char_of (i1 * 4 + i2 div 16), char_of (i2 mod 16 * 16 + i3 div 4)]"
  using assms by (simp add: b64_chr_not_pad b64_val_chr)

lemma a2b_pair:
  assumes "i1 < 64" "i2 < 64"
  shows "a2b_base64 0 l p [b64_chr i1, b64_chr i2, CHR ''='', CHR ''=''] =
    Some [char_of (i1 * 4 + i2 div 16)]"
  using assms by (simp add: b64_chr_not_pad b64_val_chr)

lemma a2b_round:
  "a2b_base64 0 l p (base64url_encode x
     @ replicate ((4 - length (base64url_encode x) mod 4) mod 4) (CHR ''='')) = Some x"
proof (induction x arbitrary: l p rule: urlsafe_b64encode.induct)
  case 1
  then show ?case by (simp add: enc0)
next
  case (2 a)
  have "a2b_base64 0 l p (base64url_encode [a]
     @ replicate ((4 - length (base64url_encode [a]) mod 4) mod 4) (CHR ''=''))
    = a2b_base64 0 l p [b64_chr ((of_char a :: nat) div 4), b64_chr ((of_char a :: nat) mod 4 * 16),
        CHR ''='', CHR ''='']"
    by (simp add: enc1 numeral_2_eq_2 del: a2b_base64.simps)
  also have "\<dots> = Some [char_of ((of_char a :: nat) div 4 * 4 + ((of_char a :: nat) mod 4 * 16) div 16)]"
    by (rule a2b_pair) (rule sext)+
  also have "\<dots> = Some [a]"
    by (simp only: oct char_of_char)
  finally show ?case .
next
  case (3 a b)
  have "a2b_base64 0 l p (base64url_encode [a, b]
     @ replicate ((4 - length (base64url_encode [a, b]) mod 4) mod 4) (CHR ''=''))
    = a2b_base64 0 l p [b64_chr ((of_char a :: nat) div 4),
        b64_chr ((of_char a :: nat) mod 4 * 16 + (of_char b :: nat) div 16),
        b64_chr ((of_char b :: nat) mod 16 * 4), CHR ''='']"
    by (simp add: enc2 del: a2b_base64.simps)
  also have "\<dots> = Some [char_of ((of_char a :: nat) div 4 * 4
        + ((of_char a :: nat) mod 4 * 16 + (of_char b :: nat) div 16) div 16),
      char_of (((of_char a :: nat) mod 4 * 16 + (of_char b :: nat) div 16) mod 16 * 16
        + ((of_char b :: nat) mod 16 * 4) div 4)]"
    by (rule a2b_triple) (rule sext)+
  also have "\<dots> = Some [a, b]"
    by (simp only: oct char_of_char)
  finally show ?case .
next
  case (4 a b c r)
  let ?pad = "\<lambda>x. replicate ((4 - length (base64url_encode x) mod 4) mod 4) (CHR ''='')"
  have "a2b_base64 0 l p (base64url_encode (a # b # c # r) @ ?pad (a # b # c # r))
    = a2b_base64 0 l p (b64_chr ((of_char a :: nat) div 4)
        # b64_chr ((of_char a :: nat) mod 4 * 16 + (of_char b :: nat) div 16)
        # b64_chr ((of_char b :: nat) mod 16 * 4 + (of_char c :: nat) div 64)
        # b64_chr ((of_char c :: nat) mod 64) # (base64url_encode r @ ?pad r))"
    by (simp add: enc3 del: a2b_base64.simps)
  also have "\<dots> = map_option (\<lambda>r. char_of ((of_char a :: nat) div 4 * 4
        + ((of_char a :: nat) mod 4 * 16 + (of_char b :: nat) div 16) div 16)
      # char_of (((of_char a :: nat) mod 4 * 16 + (of_char b :: nat) div 16) mod 16 * 16
        + ((of_char b :: nat) mod 16 * 4 + (of_char c :: nat) div 64) div 4)
      # char_of (((of_char b :: nat) mod 16 * 4 + (of_char c :: nat) div 64) mod 4 * 64 + (of_char c :: nat) mod 64) # r)
      (a2b_base64 0 0 0 (base64url_encode r @ ?pad r))"
    by (rule a2b_quad) (rule sext)+
  also have "\<dots> = map_option (\<lambda>r. a # b # c # r) (a2b_base64 0 0 0 (base64url_encode r @ ?pad r))"
    by (simp only: oct char_of_char)
  also have "\<dots> = Some (a # b # c # r)"
    by (simp add: 4 del: a2b_base64.simps)
  finally show ?case .
qed

lemma base64url_roundtrip: "base64url_decode (base64url_encode x) = Some x"
proof -
  let ?s = "base64url_encode x"
  have "(if length ?s mod 4 > 0 then ?s @ replicate (4 - length ?s mod 4) (CHR ''='') else ?s)
        = ?s @ replicate ((4 - length ?s mod 4) mod 4) (CHR ''='')"
    by auto
  then show ?thesis
    by (simp add: base64url_decode_def Let_def a2b_round)
qed

lemma base64url_index: "set (base64url_encode x) \<subseteq> b64_chr ` {..<64}"
proof (induction x rule: urlsafe_b64encode.induct)
  case 1
  then show ?case by (simp add: enc0)
next
  case (2 a)
  then show ?case
    by (simp add: enc1 sext)
next
  case (3 a b)
  then show ?case
    by (simp add: enc2 sext)
next
  case (4 a b c r)
  then show ?case
    by (simp add: enc3 sext)
qed

lemma base64url_chars:
  "c \<in> set (base64url_encode x) \<Longrightarrow>
   (of_char c :: nat) \<in> {45} \<union> {48..57} \<union> {65..90} \<union> {95} \<union> {97..122}"
  using base64url_index [of x] b64_chr_code by blast

section \<open>Parsing inverts serialising\<close>

lemma utf8_encode_ascii: "\<forall>c \<in> set s. (of_char c :: nat) < 128 \<Longrightarrow> utf8_encode s = s"
  by (induction s) (auto simp: utf8_encode_def utf8_char_def)

lemma utf8_decode_ascii: "\<forall>c \<in> set s. (of_char c :: nat) < 128 \<Longrightarrow> utf8_decode s = Some s"
  by (induction s) auto

lemma char_eq_code: "c = d \<longleftrightarrow> (of_char c :: nat) = of_char d"
  by simp

lemma hex_val_hexdig: "d < 16 \<Longrightarrow> hex_val (hexdig d) = Some d"
  by (auto simp: hex_val_def hexdig_def Let_def)

lemma hex_val_zero: "hex_val (CHR ''0'') = Some 0"
  by (simp add: hex_val_def)

lemma lexer_u00:
  assumes "d1 < 16" "d2 < 16"
  shows "lexer (InStr acc) (CHR 0x5C # CHR ''u'' # CHR ''0'' # CHR ''0'' # hexdig d1 # hexdig d2 # rest)
    = lexer (InStr (acc @ [char_of (d1 * 16 + d2)])) rest"
proof -
  have "d1 * 16 + d2 < 256" using assms by linarith
  then show ?thesis
    using assms by (simp add: hex_val_zero hex_val_hexdig)
qed

lemma escape_char_cases:
  fixes c :: char
  defines "n \<equiv> (of_char c :: nat)"
  shows "(c = CHR ''\"'' \<and> escape_char c = [CHR 0x5C, CHR ''\"''])
       \<or> (c = CHR 0x5C \<and> escape_char c = [CHR 0x5C, CHR 0x5C])
       \<or> (c = CHR 0x08 \<and> escape_char c = [CHR 0x5C, CHR ''b''])
       \<or> (c = CHR 0x0C \<and> escape_char c = [CHR 0x5C, CHR ''f''])
       \<or> (c = CHR 0x0A \<and> escape_char c = [CHR 0x5C, CHR ''n''])
       \<or> (c = CHR 0x0D \<and> escape_char c = [CHR 0x5C, CHR ''r''])
       \<or> (c = CHR 0x09 \<and> escape_char c = [CHR 0x5C, CHR ''t''])
       \<or> (escape_char c = [CHR 0x5C, CHR ''u'', CHR ''0'', CHR ''0'', hexdig (n div 16), hexdig (n mod 16)])
       \<or> (c \<noteq> CHR ''\"'' \<and> c \<noteq> CHR 0x5C \<and> 32 \<le> n \<and> escape_char c = [c])"
  unfolding n_def escape_char_def Let_def char_eq_code [of c] by simp

lemma lexer_escape_char:
  "lexer (InStr acc) (escape_char c @ rest) = lexer (InStr (acc @ [c])) rest"
proof -
  have lt: "(of_char c :: nat) < 256"
    by (rule of_char_lt_256)
  have d: "(of_char c :: nat) div 16 < 16" "(of_char c :: nat) mod 16 < 16"
    using lt by linarith+
  have e: "char_of ((of_char c :: nat) div 16 * 16 + of_char c mod 16) = c"
    by simp
  show ?thesis
    using escape_char_cases [of c]
  proof (elim disjE conjE)
    assume "escape_char c = [CHR 0x5C, CHR ''u'', CHR ''0'', CHR ''0'',
      hexdig (of_char c div 16), hexdig (of_char c mod 16)]"
    then show ?thesis
      using lexer_u00 [OF d, of acc rest] by (simp only: e append_Cons append_Nil)
  qed (simp_all add: unescape_def)
qed

lemma lexer_string:
  "lexer (InStr acc) (concat (map escape_char s) @ CHR ''\"'' # rest)
   = map_option ((#) (TVal (JStr (acc @ s)))) (lexer Idle rest)"
proof (induction s arbitrary: acc)
  case Nil
  then show ?case by simp
next
  case (Cons c s)
  have "lexer (InStr acc) (concat (map escape_char (c # s)) @ CHR ''\"'' # rest)
      = lexer (InStr acc) (escape_char c @ (concat (map escape_char s) @ CHR ''\"'' # rest))"
    by simp
  also have "\<dots> = lexer (InStr (acc @ [c])) (concat (map escape_char s) @ CHR ''\"'' # rest)"
    by (rule lexer_escape_char)
  also have "\<dots> = map_option ((#) (TVal (JStr ((acc @ [c]) @ s)))) (lexer Idle rest)"
    by (rule Cons.IH)
  finally show ?case by simp
qed


lemma digit_char:
  fixes k :: nat
  assumes "k < 10"
  shows "is_digit (char_of (48 + k))" "digit_val (char_of (48 + k)) = k"
    "\<not> json_ws (char_of (48 + k))" "after_number (char_of (48 + k)) = None"
    "char_of (48 + k) = CHR ''0'' \<longleftrightarrow> k = 0"
  using assms by (auto simp: is_digit_def digit_val_def json_ws_def after_number_def char_eq_code)

lemma dec_nat_digits: "c \<in> set (dec_nat n) \<Longrightarrow> is_digit c"
proof (induction n rule: dec_nat.induct)
  case (1 n)
  show ?case
  proof (cases "n < 10")
    case True
    with 1(2) show ?thesis by (auto simp: dec_nat.simps [of n] digit_char)
  next
    case False
    have "n mod 10 < 10" by simp
    with False 1 show ?thesis by (auto simp: dec_nat.simps [of n] digit_char)
  qed
qed

lemma dec_nat_value: "foldl (\<lambda>a c. a * 10 + digit_val c) 0 (dec_nat n) = n"
proof (induction n rule: dec_nat.induct)
  case (1 n)
  show ?case
  proof (cases "n < 10")
    case True
    then show ?thesis by (simp add: dec_nat.simps [of n] digit_char)
  next
    case False
    have "n mod 10 < 10" by simp
    with False 1 show ?thesis by (simp add: dec_nat.simps [of n] digit_char)
  qed
qed

lemma dec_nat_head:
  "\<exists>c cs. dec_nat n = c # cs \<and> is_digit c \<and> (c = CHR ''0'' \<longrightarrow> n = 0 \<and> cs = [])"
proof (induction n rule: dec_nat.induct)
  case (1 n)
  show ?case
  proof (cases "n < 10")
    case True
    then show ?thesis by (simp add: dec_nat.simps [of n] digit_char)
  next
    case False
    then have "n div 10 \<noteq> 0" by simp
    with False 1 show ?thesis by (auto simp: dec_nat.simps [of n])
  qed
qed

lemma is_digit_facts:
  assumes "is_digit c"
  shows "\<not> json_ws c" "after_number c = None" "c \<noteq> CHR ''{''" "c \<noteq> CHR ''}''"
    "c \<noteq> CHR ''[''" "c \<noteq> CHR '']''" "c \<noteq> CHR '':''" "c \<noteq> CHR '',''" "c \<noteq> CHR ''\"''"
    "c \<noteq> CHR ''-''"
  using assms
  by (auto simp: is_digit_def json_ws_def after_number_def char_eq_code [of c])

lemma lexer_digits:
  assumes "\<forall>c \<in> set ds. is_digit c" "after_number d = Some ts"
  shows "lexer (NumDigits neg v) (ds @ d # rest)
    = map_option (\<lambda>r. TVal (signed neg (foldl (\<lambda>a c. a * 10 + digit_val c) v ds)) # ts @ r)
        (lexer Idle rest)"
  using assms
proof (induction ds arbitrary: v)
  case Nil
  have "\<not> is_digit d"
    using Nil(2) is_digit_facts(2) [of d] by auto
  with Nil show ?case by simp
next
  case (Cons c ds)
  then show ?case by simp
qed

lemma lexer_dec_nat:
  assumes "after_number d = Some ts"
  shows "lexer Idle (dec_nat n @ d # rest)
    = map_option (\<lambda>r. TVal (JInt (int n)) # ts @ r) (lexer Idle rest)"
proof -
  obtain c cs where dn: "dec_nat n = c # cs" and dig: "is_digit c"
    and zero: "c = CHR ''0'' \<longrightarrow> n = 0 \<and> cs = []"
    using dec_nat_head [of n] by blast
  have digs: "\<forall>x \<in> set cs. is_digit x"
    using dec_nat_digits [of _ n] dn by simp
  have val: "foldl (\<lambda>a c. a * 10 + digit_val c) (digit_val c) cs = n"
    using dec_nat_value [of n] dn by simp
  show ?thesis
  proof (cases "c = CHR ''0''")
    case True
    with zero dn assms show ?thesis by (simp add: json_ws_def)
  next
    case False
    have "lexer Idle (c # cs @ d # rest) = lexer (NumDigits False (digit_val c)) (cs @ d # rest)"
      using False dig is_digit_facts [OF dig] by simp
    then show ?thesis
      using lexer_digits [OF digs assms, of False "digit_val c" rest] val dn
      by (simp add: signed_def)
  qed
qed

lemma lexer_dec_int:
  assumes "after_number d = Some ts"
  shows "lexer Idle (dec_int i @ d # rest)
    = map_option (\<lambda>r. TVal (JInt i) # ts @ r) (lexer Idle rest)"
proof (cases "i < 0")
  case False
  then show ?thesis
    using lexer_dec_nat [OF assms, of "nat i" rest] by (simp add: dec_int_def)
next
  case True
  obtain c cs where dn: "dec_nat (nat (- i)) = c # cs" and dig: "is_digit c"
    and zero: "c = CHR ''0'' \<longrightarrow> nat (- i) = 0 \<and> cs = []"
    using dec_nat_head [of "nat (- i)"] by blast
  have nz: "c \<noteq> CHR ''0''" using zero True by auto
  have digs: "\<forall>x \<in> set cs. is_digit x"
    using dec_nat_digits [of _ "nat (- i)"] dn by simp
  have val: "foldl (\<lambda>a c. a * 10 + digit_val c) (digit_val c) cs = nat (- i)"
    using dec_nat_value [of "nat (- i)"] dn by simp
  have "lexer Idle (CHR ''-'' # c # cs @ d # rest)
      = lexer (NumDigits True (digit_val c)) (cs @ d # rest)"
    using nz dig by (simp add: json_ws_def)
  then show ?thesis
    using lexer_digits [OF digs assms, of True "digit_val c" rest] val dn True
    by (simp add: signed_def dec_int_def)
qed

lemma hexdig_ascii: "d < 16 \<Longrightarrow> (of_char (hexdig d) :: nat) < 128"
  by (simp add: hexdig_def)

lemma escape_char_ascii: "x \<in> set (escape_char c) \<Longrightarrow> (of_char x :: nat) < 128"
proof -
  have d: "(of_char c :: nat) div 16 < 16" "(of_char c :: nat) mod 16 < 16"
    using of_char_lt_256 [of c] by linarith+
  assume "x \<in> set (escape_char c)"
  then show ?thesis
    using hexdig_ascii [OF d(1)] hexdig_ascii [OF d(2)]
    by (auto simp: escape_char_def Let_def split: if_splits)
qed

lemma is_digit_ascii: "is_digit c \<Longrightarrow> (of_char c :: nat) < 128"
  by (simp add: is_digit_def)

lemma dec_int_ascii: "x \<in> set (dec_int i) \<Longrightarrow> (of_char x :: nat) < 128"
  using dec_nat_digits [of x] is_digit_ascii [of x]
  by (auto simp: dec_int_def split: if_splits)

lemma quote_plain:
  "\<forall>c \<in> set k. c \<noteq> CHR ''\"'' \<and> c \<noteq> CHR 0x5C \<and> 32 \<le> (of_char c :: nat) \<and> (of_char c :: nat) \<le> 126
   \<Longrightarrow> concat (map escape_char k) = k"
  by (induction k) (auto simp: escape_char_def Let_def)

lemma payload_dumps:
  "json_dumps (JObj [(''sub'', JStr s), (''iat'', JInt i), (''exp'', JInt e)])
   = ''{\"sub\":\"'' @ concat (map escape_char s) @ ''\",\"iat\":'' @ dec_int i
     @ '',\"exp\":'' @ dec_int e @ ''}''"
  by (simp add: encode_basestring_ascii_def escape_char_def Let_def)

lemma payload_lex:
  "lexer Idle (json_dumps (JObj [(''sub'', JStr s), (''iat'', JInt i), (''exp'', JInt e)]))
   = Some [TLBrace, TVal (JStr ''sub''), TColon, TVal (JStr s), TComma,
           TVal (JStr ''iat''), TColon, TVal (JInt i), TComma,
           TVal (JStr ''exp''), TColon, TVal (JInt e), TRBrace]"
proof -
  have c: "after_number (CHR '','') = Some [TComma]" "after_number (CHR ''}'') = Some [TRBrace]"
    by (simp_all add: after_number_def json_ws_def)
  have 1: "lexer Idle (dec_int e @ ''}'') = Some [TVal (JInt e), TRBrace]"
    using lexer_dec_int [OF c(2), of e "[]"] by simp
  have 2: "lexer Idle (''\"exp\":'' @ dec_int e @ ''}'')
      = Some [TVal (JStr ''exp''), TColon, TVal (JInt e), TRBrace]"
    using 1 by (simp add: json_ws_def)
  have 3: "lexer Idle (dec_int i @ '',\"exp\":'' @ dec_int e @ ''}'')
      = Some [TVal (JInt i), TComma, TVal (JStr ''exp''), TColon, TVal (JInt e), TRBrace]"
    using lexer_dec_int [OF c(1), of i "''\"exp\":'' @ dec_int e @ ''}''"] 2 by simp
  have 4: "lexer Idle (''\"iat\":'' @ dec_int i @ '',\"exp\":'' @ dec_int e @ ''}'')
      = Some [TVal (JStr ''iat''), TColon, TVal (JInt i), TComma, TVal (JStr ''exp''), TColon,
              TVal (JInt e), TRBrace]"
    using 3 by (simp add: json_ws_def)
  have 5: "lexer (InStr []) (concat (map escape_char s) @ ''\",\"iat\":'' @ dec_int i
        @ '',\"exp\":'' @ dec_int e @ ''}'')
      = Some [TVal (JStr s), TComma, TVal (JStr ''iat''), TColon, TVal (JInt i), TComma,
              TVal (JStr ''exp''), TColon, TVal (JInt e), TRBrace]"
    using lexer_string [of "[]" s "'',\"iat\":'' @ dec_int i @ '',\"exp\":'' @ dec_int e @ ''}''"] 4
    by (simp add: json_ws_def)
  show ?thesis
    unfolding payload_dumps using 5 by (simp add: json_ws_def)
qed

lemma payload_ascii:
  "\<forall>c \<in> set (json_dumps (JObj [(''sub'', JStr s), (''iat'', JInt i), (''exp'', JInt e)])).
     (of_char c :: nat) < 128"
  unfolding payload_dumps using escape_char_ascii dec_int_ascii by auto

lemma payload_roundtrip:
  "json_loads (utf8_encode (json_dumps (JObj [(''sub'', JStr s), (''iat'', JInt i), (''exp'', JInt e)])))
   = Some (JObj [(''sub'', JStr s), (''iat'', JInt i), (''exp'', JInt e)])"
proof -
  let ?p = "json_dumps (JObj [(''sub'', JStr s), (''iat'', JInt i), (''exp'', JInt e)])"
  have bom: "strip_bom ?p = ?p"
    unfolding payload_dumps by (simp add: strip_bom_def)
  show ?thesis
    by (simp add: json_loads_def utf8_encode_ascii [OF payload_ascii] bom
        utf8_decode_ascii [OF payload_ascii] payload_lex del: json_dumps.simps)
qed

section \<open>Decoding a token that was just encoded\<close>

lemma split_acc_no_space:
  "\<forall>c \<in> set t. \<not> py_isspace c \<Longrightarrow> split_acc w t = (if w @ t = [] then [] else [w @ t])"
  by (induction t arbitrary: w) auto

lemma header_json_roundtrip:
  "json_loads (utf8_encode (json_dumps (JObj jwt_header))) = Some (JObj jwt_header)"
  by code_simp

lemma split_first_no_sep: "sep \<notin> set a \<Longrightarrow> split_first sep (a @ sep # b) = Some (a, b)"
  by (induction a) auto

lemma rsplit_last_no_sep: "sep \<notin> set b \<Longrightarrow> rsplit_last sep (a @ sep # b) = Some (a, b)"
  using split_first_no_sep [of sep "rev b" "rev a"] by (simp add: rsplit_last_def)

lemma base64url_no_dot: "CHR ''.'' \<notin> set (base64url_encode x)"
  using base64url_chars [of "CHR ''.''" x] by auto

lemma base64url_ascii: "c \<in> set (base64url_encode x) \<Longrightarrow> (of_char c :: nat) < 128"
  using base64url_chars [of c x] by auto

lemma base64url_no_space: "c \<in> set (base64url_encode x) \<Longrightarrow> \<not> py_isspace c"
  using base64url_chars [of c x] by (auto simp: py_isspace_def)

lemma jws_encode_ascii: "c \<in> set (jws_encode p k) \<Longrightarrow> (of_char c :: nat) < 128"
  using base64url_ascii by (auto simp: jws_encode_def Let_def)

lemma jws_encode_no_space: "c \<in> set (jws_encode p k) \<Longrightarrow> \<not> py_isspace c"
  using base64url_no_space by (auto simp: jws_encode_def Let_def py_isspace_def)

lemma jws_load_encode:
  "jws_load (jws_encode p k) =
   Inr (p,
        base64url_encode (utf8_encode (json_dumps (JObj jwt_header))) @ CHR ''.'' # base64url_encode p,
        jwt_header,
        hmac_sha256 (utf8_encode k)
          (base64url_encode (utf8_encode (json_dumps (JObj jwt_header))) @ CHR ''.'' # base64url_encode p))"
proof -
  let ?h = "base64url_encode (utf8_encode (json_dumps (JObj jwt_header)))"
  let ?p = "base64url_encode p"
  let ?sig = "hmac_sha256 (utf8_encode k) (?h @ CHR ''.'' # ?p)"
  have tok: "jws_encode p k = (?h @ CHR ''.'' # ?p) @ CHR ''.'' # base64url_encode ?sig"
    by (simp add: jws_encode_def Let_def)
  have u: "utf8_encode (jws_encode p k) = jws_encode p k"
    using jws_encode_ascii by (intro utf8_encode_ascii) blast
  have r: "rsplit_last (CHR ''.'') (jws_encode p k) = Some (?h @ CHR ''.'' # ?p, base64url_encode ?sig)"
    unfolding tok by (rule rsplit_last_no_sep) (rule base64url_no_dot)
  have s: "split_first (CHR ''.'') (?h @ CHR ''.'' # ?p) = Some (?h, ?p)"
    by (rule split_first_no_sep) (rule base64url_no_dot)
  show ?thesis
    by (simp add: jws_load_def u r s base64url_roundtrip header_json_roundtrip
        del: json_dumps.simps)
qed

lemma jws_decode_encode: "jws_decode (jws_encode p k) k = Inr p"
  by (simp add: jws_decode_def jws_load_encode verify_signature_def jwt_header_def dict_get_def
      py_truthy_def del: json_dumps.simps)

lemma jwt_decode_encode:
  assumes "json_loads (utf8_encode (json_dumps (JObj payload))) = Some (JObj payload)"
  shows "jwt_decode (jws_encode (utf8_encode (json_dumps (JObj payload))) k) k verify_exp now =
    (case validate_claims payload verify_exp now of Inl e \<Rightarrow> Inl e | Inr u \<Rightarrow> Inr payload)"
  by (simp add: jwt_decode_def jws_decode_encode assms del: json_dumps.simps)

lemma py_split_bearer:
  assumes "t \<noteq> []" "\<forall>c \<in> set t. \<not> py_isspace c"
  shows "py_split (''Bearer '' @ t) = [''Bearer'', t]"
  using assms split_acc_no_space [of t "[]"]
  by (simp add: py_split_def py_isspace_def)

lemma jws_encode_nonempty: "jws_encode p k \<noteq> []"
  by (simp add: jws_encode_def Let_def)

lemma py_lower_bearer: "py_lower ''Bearer'' = ''bearer''"
  by code_simp

lemma gate_on_issued_token:
  assumes "authorization request = Some (''Bearer '' @ jws_encode p k)"
  shows "decorated_function func now request w =
    (case jwt_decode (jws_encode p k) JWT_SECRET_KEY True now of
       Inr decoded \<Rightarrow> func (request\<lparr>jwt_payload := Some decoded\<rparr>) w
     | Inl e \<Rightarrow>
         (if e = ExpiredSignatureError then (unauthorized token_expirado, w)
          else if is_InvalidTokenError e then (unauthorized token_invalido_o_ausente, w)
          else (Raised e, w)))"
proof -
  have "py_split (''Bearer '' @ jws_encode p k) = [''Bearer'', jws_encode p k]"
    using jws_encode_nonempty jws_encode_no_space by (intro py_split_bearer) blast+
  then show ?thesis
    using assms by (simp add: decorated_function_def py_lower_bearer)
qed

section \<open>The shape of the Authorization header\<close>

text \<open>
  C6 (as amended). When the Authorization header is absent, or present but not made of
  exactly two whitespace-separated fields of which the first is, ignoring case, the word
  Bearer, the gate answers 401 with the message \<open>token_invalido\<close> and leaves the state of
  the server as it was. The answer is the same in both cases.
\<close>

theorem header_shape_denied:
  assumes "authorization request = None \<or>
           (\<exists>h. authorization request = Some h \<and>
                (length (py_split h) \<noteq> 2 \<or> py_lower (hd (py_split h)) \<noteq> ''bearer''))"
  shows "decorated_function func now request w = (unauthorized token_invalido, w)"
proof (cases "authorization request")
  case None
  then show ?thesis by (simp add: decorated_function_def)
next
  case (Some h)
  with assms have bad: "length (py_split h) \<noteq> 2 \<or> py_lower (hd (py_split h)) \<noteq> ''bearer''"
    by simp
  show ?thesis
  proof (cases "py_split h")
    case Nil
    with Some show ?thesis by (simp add: decorated_function_def)
  next
    case (Cons a r)
    note outer = Cons
    show ?thesis
    proof (cases r)
      case Nil
      with outer Some show ?thesis by (simp add: decorated_function_def)
    next
      case (Cons b r')
      with outer Some bad show ?thesis
        by (cases r') (auto simp: decorated_function_def)
    qed
  qed
qed

theorem header_shape_denied_witness:
  "decorated_function secret_view 1000000000
     \<lparr>authorization = Some ''Token abc'', json_body = JNull, jwt_payload = None\<rparr> ()
   = (unauthorized token_invalido, ())"
proof -
  have "py_split ''Token abc'' = [''Token'', ''abc'']"
    by (simp add: py_split_def py_isspace_def)
  moreover have "py_lower ''Token'' \<noteq> ''bearer''"
    by (simp add: py_lower_def py_lower_char_def)
  ultimately show ?thesis
    using header_shape_denied [of "\<lparr>authorization = Some ''Token abc'', json_body = JNull,
      jwt_payload = None\<rparr>" secret_view 1000000000 "()"]
    by simp
qed

theorem missing_and_malformed_header_same_outcome:
  "decorated_function secret_view 1000000000
     \<lparr>authorization = None, json_body = JNull, jwt_payload = None\<rparr> ()
   = decorated_function secret_view 1000000000
     \<lparr>authorization = Some ''Token abc'', json_body = JNull, jwt_payload = None\<rparr> ()"
  by (simp add: decorated_function_def py_split_def py_isspace_def py_lower_def
      py_lower_char_def)

section \<open>Issuing and verifying\<close>




lemma validate_issued:
  "validate_claims [(''sub'', JStr s), (''iat'', JInt i), (''exp'', JInt e)] True now =
   (if i * 1000000 > now then Inl ImmatureSignatureError
    else if e * 1000000 \<le> now then Inl ExpiredSignatureError else Inr ())"
  by (simp add: validate_claims_def validate_iat_def validate_nbf_def validate_exp_def
      validate_aud_def validate_sub_def validate_jti_def dict_get_def py_int_def is_str_def)

lemma decode_issued:
  "jwt_decode (jws_encode (utf8_encode (json_dumps (JObj
      [(''sub'', JStr s), (''iat'', JInt i), (''exp'', JInt e)]))) k) k True now =
   (if i * 1000000 > now then Inl ImmatureSignatureError
    else if e * 1000000 \<le> now then Inl ExpiredSignatureError
    else Inr [(''sub'', JStr s), (''iat'', JInt i), (''exp'', JInt e)])"
  by (simp add: jwt_decode_encode [OF payload_roundtrip] validate_issued del: json_dumps.simps)





lemma gate_good_header:
  assumes "authorization request = Some h" "py_split h = [scheme, token]"
    "py_lower scheme = ''bearer''"
  shows "decorated_function func now request w =
    (case jwt_decode token JWT_SECRET_KEY True now of
       Inr decoded \<Rightarrow> func (request\<lparr>jwt_payload := Some decoded\<rparr>) w
     | Inl e \<Rightarrow>
         (if e = ExpiredSignatureError then (unauthorized token_expirado, w)
          else if is_InvalidTokenError e then (unauthorized token_invalido_o_ausente, w)
          else (Raised e, w)))"
proof -
  have "h \<noteq> []"
    using assms(2) by (auto simp: py_split_def)
  then show ?thesis
    using assms by (simp add: decorated_function_def)
qed

lemma gate_bad_header:
  assumes "authorization request = None \<or>
           (\<exists>h. authorization request = Some h \<and>
                (\<forall>scheme token. py_split h = [scheme, token] \<longrightarrow> py_lower scheme \<noteq> ''bearer''))"
  shows "decorated_function func now request w = (unauthorized token_invalido, w)"
  using assms
  by (auto simp: decorated_function_def split: option.splits list.splits)

text \<open>
  C2. Whatever the request and the clock reading, one of two things happens. Either the
  header has the Bearer shape and its token decodes to claims: then the gate's result is
  the protected view's, called on the request with the claims attached. Or the gate's
  result is one of its denials (or an exception that escapes it), the same whatever the
  protected view is, and the state of the server is as before: the view was not called.
\<close>

theorem never_invoked_on_denial:
  "(\<exists>h scheme token decoded.
      authorization request = Some h \<and> py_split h = [scheme, token] \<and>
      py_lower scheme = ''bearer'' \<and>
      jwt_decode token JWT_SECRET_KEY True now = Inr decoded \<and>
      (\<forall>func (w :: 'w). decorated_function func now request w
         = func (request\<lparr>jwt_payload := Some decoded\<rparr>) w))
   \<or> (\<exists>r. (r = unauthorized token_invalido \<or> r = unauthorized token_expirado \<or>
            r = unauthorized token_invalido_o_ausente \<or> (\<exists>e. r = Raised e)) \<and>
           (\<forall>func (w :: 'w). decorated_function func now request w = (r, w)))"
proof (cases "\<exists>h scheme token. authorization request = Some h \<and> py_split h = [scheme, token]
    \<and> py_lower scheme = ''bearer''")
  case False
  then have bad: "authorization request = None \<or>
           (\<exists>h. authorization request = Some h \<and>
                (\<forall>scheme token. py_split h = [scheme, token] \<longrightarrow> py_lower scheme \<noteq> ''bearer''))"
    by (cases "authorization request") auto
  have "\<forall>func (w :: 'w). decorated_function func now request w = (unauthorized token_invalido, w)"
    by (simp add: gate_bad_header [OF bad])
  then show ?thesis by blast
next
  case True
  then obtain h scheme token where h: "authorization request = Some h"
    "py_split h = [scheme, token]" "py_lower scheme = ''bearer''"
    by blast
  show ?thesis
  proof (cases "jwt_decode token JWT_SECRET_KEY True now")
    case (Inr decoded)
    then have "\<forall>func (w :: 'w). decorated_function func now request w
         = func (request\<lparr>jwt_payload := Some decoded\<rparr>) w"
      by (simp add: gate_good_header [OF h])
    with h Inr show ?thesis by blast
  next
    case (Inl e)
    let ?r = "if e = ExpiredSignatureError then unauthorized token_expirado
          else if is_InvalidTokenError e then unauthorized token_invalido_o_ausente
          else Raised e"
    have "\<forall>func (w :: 'w). decorated_function func now request w = (?r, w)"
      by (simp add: gate_good_header [OF h] Inl)
    moreover have "?r = unauthorized token_invalido \<or> ?r = unauthorized token_expirado \<or>
            ?r = unauthorized token_invalido_o_ausente \<or> (\<exists>e. ?r = Raised e)"
      by simp
    ultimately show ?thesis by blast
  qed
qed

theorem never_invoked_on_denial_witness:
  "(\<exists>h scheme token decoded.
      authorization \<lparr>authorization = Some ''Bearer abc'', json_body = JNull, jwt_payload = None\<rparr>
        = Some h \<and> py_split h = [scheme, token] \<and>
      py_lower scheme = ''bearer'' \<and>
      jwt_decode token JWT_SECRET_KEY True 1000000000 = Inr decoded \<and>
      (\<forall>func (w :: unit). decorated_function func 1000000000
           \<lparr>authorization = Some ''Bearer abc'', json_body = JNull, jwt_payload = None\<rparr> w
         = func (\<lparr>authorization = Some ''Bearer abc'', json_body = JNull, jwt_payload = None\<rparr>
              \<lparr>jwt_payload := Some decoded\<rparr>) w))
   \<or> (\<exists>r. (r = unauthorized token_invalido \<or> r = unauthorized token_expirado \<or>
            r = unauthorized token_invalido_o_ausente \<or> (\<exists>e. r = Raised e)) \<and>
           (\<forall>func (w :: unit). decorated_function func 1000000000
              \<lparr>authorization = Some ''Bearer abc'', json_body = JNull, jwt_payload = None\<rparr> w
              = (r, w)))"
  by (rule never_invoked_on_denial)

text \<open>
  C5 (as stated) fails: the gate takes no time from its caller. \<^verbatim>\<open>jwt.decode\<close> reads the
  system clock itself, and that reading decides. The same request, holding the token
  issued at second 1000, is granted when the clock reads 4599 s and refused as expired
  when it reads 4600 s.
\<close>

theorem clock_changes_outcome:
  "decorated_function secret_view 4599000000
     \<lparr>authorization = Some (''Bearer '' @ jws_encode (utf8_encode (json_dumps (JObj
        [(''sub'', JStr ''usuario_demo''), (''iat'', JInt 999), (''exp'', JInt 4600)])))
        JWT_SECRET_KEY), json_body = JNull, jwt_payload = None\<rparr> ()
   = secret_view
     \<lparr>authorization = Some (''Bearer '' @ jws_encode (utf8_encode (json_dumps (JObj
        [(''sub'', JStr ''usuario_demo''), (''iat'', JInt 999), (''exp'', JInt 4600)])))
        JWT_SECRET_KEY), json_body = JNull,
      jwt_payload = Some [(''sub'', JStr ''usuario_demo''), (''iat'', JInt 999),
        (''exp'', JInt 4600)]\<rparr> () \<and>
   decorated_function secret_view 4600000000
     \<lparr>authorization = Some (''Bearer '' @ jws_encode (utf8_encode (json_dumps (JObj
        [(''sub'', JStr ''usuario_demo''), (''iat'', JInt 999), (''exp'', JInt 4600)])))
        JWT_SECRET_KEY), json_body = JNull, jwt_payload = None\<rparr> ()
   = (unauthorized token_expirado, ())"
  by (simp add: gate_on_issued_token decode_issued del: json_dumps.simps)

text \<open>
  C5 (as amended). The decision is a function of the Authorization header value and of the
  reading of the system clock (the secret is the module's constant): two requests with the
  same header value, handled at the same clock reading, are both denied with the same
  answer, or both granted with the same claims, whatever else they carry and whatever the
  state of the server.
\<close>

theorem decision_depends_only_on_header_and_clock:
  assumes "authorization r1 = authorization r2"
  shows "(\<exists>r. \<forall>func (w :: 'w).
            decorated_function func now r1 w = (r, w) \<and>
            decorated_function func now r2 w = (r, w))
       \<or> (\<exists>decoded. \<forall>func (w :: 'w).
            decorated_function func now r1 w = func (r1\<lparr>jwt_payload := Some decoded\<rparr>) w \<and>
            decorated_function func now r2 w = func (r2\<lparr>jwt_payload := Some decoded\<rparr>) w)"
proof (cases "\<exists>h scheme token. authorization r1 = Some h \<and> py_split h = [scheme, token]
    \<and> py_lower scheme = ''bearer''")
  case False
  then have bad1: "authorization r1 = None \<or>
           (\<exists>h. authorization r1 = Some h \<and>
                (\<forall>scheme token. py_split h = [scheme, token] \<longrightarrow> py_lower scheme \<noteq> ''bearer''))"
    by (cases "authorization r1") auto
  then have bad2: "authorization r2 = None \<or>
           (\<exists>h. authorization r2 = Some h \<and>
                (\<forall>scheme token. py_split h = [scheme, token] \<longrightarrow> py_lower scheme \<noteq> ''bearer''))"
    using assms by simp
  have "\<forall>func (w :: 'w).
            decorated_function func now r1 w = (unauthorized token_invalido, w) \<and>
            decorated_function func now r2 w = (unauthorized token_invalido, w)"
    by (simp add: gate_bad_header [OF bad1] gate_bad_header [OF bad2])
  then show ?thesis by blast
next
  case True
  then obtain h scheme token where h1: "authorization r1 = Some h"
    and sp: "py_split h = [scheme, token]" and lo: "py_lower scheme = ''bearer''"
    by blast
  have h2: "authorization r2 = Some h"
    using h1 assms by simp
  show ?thesis
  proof (cases "jwt_decode token JWT_SECRET_KEY True now")
    case (Inr decoded)
    then have "\<forall>func (w :: 'w).
            decorated_function func now r1 w = func (r1\<lparr>jwt_payload := Some decoded\<rparr>) w \<and>
            decorated_function func now r2 w = func (r2\<lparr>jwt_payload := Some decoded\<rparr>) w"
      by (simp add: gate_good_header [OF h1 sp lo] gate_good_header [OF h2 sp lo])
    then show ?thesis by blast
  next
    case (Inl e)
    let ?r = "if e = ExpiredSignatureError then unauthorized token_expirado
          else if is_InvalidTokenError e then unauthorized token_invalido_o_ausente
          else Raised e"
    have "\<forall>func (w :: 'w).
            decorated_function func now r1 w = (?r, w) \<and>
            decorated_function func now r2 w = (?r, w)"
      by (simp add: gate_good_header [OF h1 sp lo] gate_good_header [OF h2 sp lo] Inl)
    then show ?thesis by blast
  qed
qed

theorem decision_depends_only_on_header_and_clock_witness:
  "(\<exists>r. \<forall>func (w :: unit).
        decorated_function func 1000000000
          \<lparr>authorization = Some ''Bearer abc'', json_body = JNull, jwt_payload = None\<rparr> w
          = (r, w) \<and>
        decorated_function func 1000000000
          \<lparr>authorization = Some ''Bearer abc'', json_body = JInt 7,
            jwt_payload = Some [(''sub'', JStr ''x'')]\<rparr> w
          = (r, w))
   \<or> (\<exists>decoded. \<forall>func (w :: unit).
        decorated_function func 1000000000
          \<lparr>authorization = Some ''Bearer abc'', json_body = JNull, jwt_payload = None\<rparr> w
          = func (\<lparr>authorization = Some ''Bearer abc'', json_body = JNull, jwt_payload = None\<rparr>
               \<lparr>jwt_payload := Some decoded\<rparr>) w \<and>
        decorated_function func 1000000000
          \<lparr>authorization = Some ''Bearer abc'', json_body = JInt 7,
            jwt_payload = Some [(''sub'', JStr ''x'')]\<rparr> w
          = func (\<lparr>authorization = Some ''Bearer abc'', json_body = JInt 7,
               jwt_payload = Some [(''sub'', JStr ''x'')]\<rparr>\<lparr>jwt_payload := Some decoded\<rparr>) w)"
  by (rule decision_depends_only_on_header_and_clock) simp




text \<open>
  C10. Verification accepts only tokens whose header declares the algorithm HS256. A token
  that decodes to claims has a header with \<open>alg = "HS256"\<close>; and a token whose header
  declares anything else (or no algorithm) is refused with InvalidAlgorithmError (or
  DecodeError), which the gate answers with \<open>token_invalido_o_ausente\<close>, the state of the
  server unchanged.
\<close>

theorem algorithm_pinned:
  "(jwt_decode token key verify_exp now = Inr claims \<longrightarrow>
      (\<exists>pb si header sg. jws_load token = Inr (pb, si, header, sg) \<and>
         dict_get header ''alg'' = Some (JStr ''HS256''))) \<and>
   (jws_load token = Inr (pb, si, header, sg) \<and> dict_get header ''alg'' \<noteq> Some (JStr ''HS256'') \<longrightarrow>
      (jwt_decode token key verify_exp now = Inl InvalidAlgorithmError \<or>
       jwt_decode token key verify_exp now = Inl DecodeError) \<and>
      (\<forall>func request h scheme (w :: 'w).
         authorization request = Some h \<and> py_split h = [scheme, token] \<and>
         py_lower scheme = ''bearer'' \<longrightarrow>
         decorated_function func now request w = (unauthorized token_invalido_o_ausente, w)))"
proof (intro conjI impI)
  assume "jwt_decode token key verify_exp now = Inr claims"
  then show "\<exists>pb si header sg. jws_load token = Inr (pb, si, header, sg) \<and>
         dict_get header ''alg'' = Some (JStr ''HS256'')"
    by (auto simp: jwt_decode_def jws_decode_def verify_signature_def
        split: sum.splits option.splits if_splits)
next
  assume a: "jws_load token = Inr (pb, si, header, sg) \<and>
    dict_get header ''alg'' \<noteq> Some (JStr ''HS256'')"
  have d: "jwt_decode token k v n = Inl InvalidAlgorithmError \<or>
       jwt_decode token k v n = Inl DecodeError" for k v n
    using a by (auto simp: jwt_decode_def jws_decode_def verify_signature_def
        split: sum.splits option.splits if_splits)
  show "jwt_decode token key verify_exp now = Inl InvalidAlgorithmError \<or>
       jwt_decode token key verify_exp now = Inl DecodeError"
    by (rule d)
  show "\<forall>func request h scheme (w :: 'w).
         authorization request = Some h \<and> py_split h = [scheme, token] \<and>
         py_lower scheme = ''bearer'' \<longrightarrow>
         decorated_function func now request w = (unauthorized token_invalido_o_ausente, w)"
  proof (intro allI impI)
    fix func h scheme and request :: request and w :: 'w
    assume h: "authorization request = Some h \<and> py_split h = [scheme, token] \<and>
         py_lower scheme = ''bearer''"
    show "decorated_function func now request w = (unauthorized token_invalido_o_ausente, w)"
      using d [of JWT_SECRET_KEY True now] h
      by (auto simp: gate_good_header [of request h scheme token] is_InvalidTokenError_def)
  qed
qed

lemma load_none_token:
  "jws_load ''eyJhbGciOiJub25lIiwidHlwIjoiSldUIn0.eyJzdWIiOiJhIn0.''
   = Inr (''{\"sub\":\"a\"}'', ''eyJhbGciOiJub25lIiwidHlwIjoiSldUIn0.eyJzdWIiOiJhIn0'',
          [(''alg'', JStr ''none''), (''typ'', JStr ''JWT'')], [])"
  by code_simp

lemma split_none_token:
  "py_split ''Bearer eyJhbGciOiJub25lIiwidHlwIjoiSldUIn0.eyJzdWIiOiJhIn0.''
   = [''Bearer'', ''eyJhbGciOiJub25lIiwidHlwIjoiSldUIn0.eyJzdWIiOiJhIn0.'']"
  by code_simp

theorem algorithm_pinned_witness:
  "(jwt_decode ''eyJhbGciOiJub25lIiwidHlwIjoiSldUIn0.eyJzdWIiOiJhIn0.'' JWT_SECRET_KEY True
      1000000000 = Inl InvalidAlgorithmError \<or>
    jwt_decode ''eyJhbGciOiJub25lIiwidHlwIjoiSldUIn0.eyJzdWIiOiJhIn0.'' JWT_SECRET_KEY True
      1000000000 = Inl DecodeError) \<and>
   decorated_function secret_view 1000000000
     \<lparr>authorization = Some ''Bearer eyJhbGciOiJub25lIiwidHlwIjoiSldUIn0.eyJzdWIiOiJhIn0.'',
      json_body = JNull, jwt_payload = None\<rparr> ()
   = (unauthorized token_invalido_o_ausente, ())"
proof -
  have alg: "dict_get [(''alg'', JStr ''none''), (''typ'', JStr ''JWT'')] ''alg''
      \<noteq> Some (JStr ''HS256'')"
    by (simp add: dict_get_def)
  note p = algorithm_pinned [of "''eyJhbGciOiJub25lIiwidHlwIjoiSldUIn0.eyJzdWIiOiJhIn0.''"
      JWT_SECRET_KEY True 1000000000 _ "''{\"sub\":\"a\"}''"
      "''eyJhbGciOiJub25lIiwidHlwIjoiSldUIn0.eyJzdWIiOiJhIn0''"
      "[(''alg'', JStr ''none''), (''typ'', JStr ''JWT'')]" "[]", THEN conjunct2, rule_format,
      OF conjI [OF load_none_token alg]]
  show ?thesis
    using p [THEN conjunct1] p [THEN conjunct2, rule_format, of
        "\<lparr>authorization = Some ''Bearer eyJhbGciOiJub25lIiwidHlwIjoiSldUIn0.eyJzdWIiOiJhIn0.'',
          json_body = JNull, jwt_payload = None\<rparr>"
        "''Bearer eyJhbGciOiJub25lIiwidHlwIjoiSldUIn0.eyJzdWIiOiJhIn0.''" "''Bearer''"
        secret_view "()"]
      split_none_token py_lower_bearer
    by simp
qed









section \<open>A token whose payload segment was altered\<close>

lemma utf8_encode_append: "utf8_encode (a @ b) = utf8_encode a @ utf8_encode b"
  by (simp add: utf8_encode_def)

lemma utf8_encode_dot: "utf8_encode (CHR ''.'' # b) = CHR ''.'' # utf8_encode b"
  by (simp add: utf8_encode_def utf8_char_def)

lemma utf8_encode_ascii_only:
  assumes "utf8_encode x = y" "\<forall>c \<in> set y. (of_char c :: nat) < 128"
  shows "x = y"
  using assms
proof (induction x arbitrary: y)
  case Nil
  then show ?case by (simp add: utf8_encode_def)
next
  case (Cons c x)
  show ?case
  proof (cases "(of_char c :: nat) < 128")
    case True
    then obtain y' where y: "y = c # y'" "utf8_encode x = y'"
      using Cons.prems(1) by (auto simp: utf8_encode_def utf8_char_def)
    with Cons show ?thesis by auto
  next
    case False
    have "(of_char c :: nat) div 64 < 4"
      using of_char_lt_256 [of c] by linarith
    then have "(of_char (char_of (192 + (of_char c :: nat) div 64)) :: nat) \<ge> 128"
      by simp
    moreover have "char_of (192 + (of_char c :: nat) div 64) \<in> set y"
      using False Cons.prems(1) by (auto simp: utf8_encode_def utf8_char_def Let_def)
    ultimately show ?thesis
      using Cons.prems(2) by fastforce
  qed
qed

lemma segments_unique:
  assumes "h @ CHR ''.'' # p @ CHR ''.'' # s = h' @ CHR ''.'' # p' @ CHR ''.'' # s'"
    "CHR ''.'' \<notin> set h" "CHR ''.'' \<notin> set p" "CHR ''.'' \<notin> set h'" "CHR ''.'' \<notin> set p'"
  shows "h = h' \<and> p = p' \<and> s = s'"
proof -
  have a: "split_first (CHR ''.'') (h @ CHR ''.'' # p @ CHR ''.'' # s) = Some (h, p @ CHR ''.'' # s)"
    by (rule split_first_no_sep) (rule assms(2))
  have b: "split_first (CHR ''.'') (h' @ CHR ''.'' # p' @ CHR ''.'' # s')
      = Some (h', p' @ CHR ''.'' # s')"
    by (rule split_first_no_sep) (rule assms(4))
  have "Some (h, p @ CHR ''.'' # s) = Some (h', p' @ CHR ''.'' # s')"
    using a [unfolded assms(1)] b by (simp only:)
  then have 1: "h = h'" and 2: "p @ CHR ''.'' # s = p' @ CHR ''.'' # s'"
    by (simp_all only: option.inject prod.inject)
  have c: "split_first (CHR ''.'') (p @ CHR ''.'' # s) = Some (p, s)"
    by (rule split_first_no_sep) (rule assms(3))
  have d: "split_first (CHR ''.'') (p' @ CHR ''.'' # s') = Some (p', s')"
    by (rule split_first_no_sep) (rule assms(5))
  have "Some (p, s) = Some (p', s')"
    using c [unfolded 2] d by (simp only:)
  then show ?thesis
    using 1 by simp
qed

lemma jws_load_altered_payload:
  fixes pl k q
  defines "h \<equiv> base64url_encode (utf8_encode (json_dumps (JObj jwt_header)))"
  defines "s \<equiv> base64url_encode (hmac_sha256 (utf8_encode k) (h @ CHR ''.'' # base64url_encode pl))"
  shows "jws_load (h @ CHR ''.'' # q @ CHR ''.'' # s) =
    (case base64url_decode (utf8_encode q) of
       None \<Rightarrow> Inl DecodeError
     | Some pb \<Rightarrow> Inr (pb, h @ CHR ''.'' # utf8_encode q, jwt_header,
         hmac_sha256 (utf8_encode k) (h @ CHR ''.'' # base64url_encode pl)))"
proof -
  let ?si = "h @ CHR ''.'' # utf8_encode q"
  let ?mac = "hmac_sha256 (utf8_encode k) (h @ CHR ''.'' # base64url_encode pl)"
  have ha: "utf8_encode h = h"
    unfolding h_def using base64url_ascii by (intro utf8_encode_ascii) blast
  have sa: "utf8_encode s = s"
    unfolding s_def using base64url_ascii by (intro utf8_encode_ascii) blast
  have u: "utf8_encode (h @ CHR ''.'' # q @ CHR ''.'' # s)
      = h @ CHR ''.'' # utf8_encode q @ CHR ''.'' # s"
    by (simp add: utf8_encode_append utf8_encode_dot ha sa)
  have sdot: "CHR ''.'' \<notin> set s"
    unfolding s_def by (rule base64url_no_dot)
  have hdot: "CHR ''.'' \<notin> set h"
    unfolding h_def by (rule base64url_no_dot)
  have r: "rsplit_last (CHR ''.'') (h @ CHR ''.'' # utf8_encode q @ CHR ''.'' # s) = Some (?si, s)"
    using rsplit_last_no_sep [OF sdot, of ?si] by simp
  have f: "split_first (CHR ''.'') ?si = Some (h, utf8_encode q)"
    by (rule split_first_no_sep) (rule hdot)
  have hd: "base64url_decode h = Some (utf8_encode (json_dumps (JObj jwt_header)))"
    unfolding h_def by (rule base64url_roundtrip)
  have sd: "base64url_decode s = Some ?mac"
    unfolding s_def h_def by (rule base64url_roundtrip)
  show ?thesis
    by (simp add: jws_load_def u r f hd header_json_roundtrip sd del: json_dumps.simps
        split: option.splits)
qed

lemma jwt_decode_altered_payload:
  fixes pl k q
  defines "h \<equiv> base64url_encode (utf8_encode (json_dumps (JObj jwt_header)))"
  defines "s \<equiv> base64url_encode (hmac_sha256 (utf8_encode k) (h @ CHR ''.'' # base64url_encode pl))"
  shows "jwt_decode (h @ CHR ''.'' # q @ CHR ''.'' # s) k verify_exp now = Inl DecodeError \<or>
     jwt_decode (h @ CHR ''.'' # q @ CHR ''.'' # s) k verify_exp now = Inl InvalidSignatureError \<or>
     hmac_sha256 (utf8_encode k) (h @ CHR ''.'' # utf8_encode q)
       = hmac_sha256 (utf8_encode k) (h @ CHR ''.'' # base64url_encode pl)"
proof -
  let ?si = "h @ CHR ''.'' # utf8_encode q"
  let ?mac = "hmac_sha256 (utf8_encode k) (h @ CHR ''.'' # base64url_encode pl)"
  note load = jws_load_altered_payload [of q k pl, folded h_def, folded s_def]
  show ?thesis
  proof (cases "base64url_decode (utf8_encode q)")
    case None
    then show ?thesis
      by (simp add: jwt_decode_def jws_decode_def load)
  next
    case (Some pb)
    have alg: "dict_get jwt_header ''alg'' = Some (JStr ''HS256'')"
      "dict_get jwt_header ''b64'' = None" "py_truthy (JStr ''HS256'')"
      by (simp_all add: jwt_header_def dict_get_def py_truthy_def)
    have v: "verify_signature ?si jwt_header ?mac k =
      (if ?mac = hmac_sha256 (utf8_encode k) ?si then Inr () else Inl InvalidSignatureError)"
      by (simp add: verify_signature_def alg)
    show ?thesis
    proof (cases "?mac = hmac_sha256 (utf8_encode k) ?si")
      case True
      then show ?thesis by simp
    next
      case False
      then have "jws_decode (h @ CHR ''.'' # q @ CHR ''.'' # s) k = Inl InvalidSignatureError"
        by (simp add: jws_decode_def load Some alg v)
      then show ?thesis
        by (simp add: jwt_decode_def)
    qed
  qed
qed

lemma split_acc_space:
  assumes "\<forall>x \<in> set a. \<not> py_isspace x" "py_isspace c"
  shows "split_acc w (a @ c # b) = (if w @ a = [] then split_acc [] b else (w @ a) # split_acc [] b)"
  using assms by (induction a arbitrary: w) auto

end
